theory Spec2Isabelle
  imports Complex_Main "HOL-Library.Log_Nat" "HOL-Library.Multiset"
begin

section \<open>Per-structure aggregation of per-atom descriptors (chemiscope.ipynb)\<close>

text \<open>
  The notebook defines two helpers, \<^verbatim>\<open>average_over_structures\<close> and
  \<^verbatim>\<open>sum_over_structures\<close>. Both read the \<^verbatim>\<open>"structure"\<close> column of the samples of a
  descriptor block and its 2-D \<^verbatim>\<open>values\<close> array, and build one output row per distinct
  structure index:
  \<^verbatim>\<open>
  def average_over_structures(descriptor):
      samples = descriptor.block().samples
      values = descriptor.block().values
      all_structures = np.unique(samples["structure"])
      output = np.zeros((len(all_structures), values.shape[1]))
      for i, structure in enumerate(all_structures):
          mask = samples["structure"] == structure
          output[i, :] += np.mean(values[mask, :], axis=0)
      return output
  \<close>
  \<^verbatim>\<open>sum_over_structures\<close> is the same text with \<^verbatim>\<open>np.sum\<close> in place of \<^verbatim>\<open>np.mean\<close>.
\<close>

subsection \<open>The element type: binary64 numbers\<close>

text \<open>
  The entries of \<^verbatim>\<open>values\<close> and of \<^verbatim>\<open>np.zeros(...)\<close> are float64. A number is
  finite (its exact rational value, \<open>Finite 0\<close> being \<open>+0.0\<close>), the negative zero
  \<open>-0.0\<close>, an infinity or NaN. Every arithmetic operation computes the exact rational
  result and rounds it to the nearest binary64 number, ties to even, overflowing to an
  infinity; a result that rounds to zero keeps its sign. An exact zero sum is \<open>+0.0\<close>
  unless both summands are \<open>-0.0\<close>; the sign of a zero product or quotient is the
  product of the signs. The helpers add and divide; the multiplication is here to state
  how the mean and the sum of a group are related.
\<close>

datatype float64 = Finite rat | NZero | PInf | NInf | NaN

definition ilog2 :: "rat \<Rightarrow> int" where
  \<comment> \<open>\<open>\<lfloor>log\<^sub>2 x\<rfloor>\<close> for \<open>x > 0\<close>, from the bit lengths of numerator and denominator\<close>
  "ilog2 x =
     (let l = bitlen (fst (quotient_of x)) - bitlen (snd (quotient_of x))
      in if 2 powi l \<le> x then l else l - 1)"

definition round_half_even :: "rat \<Rightarrow> int" where
  "round_half_even x =
     (let f = \<lfloor>x\<rfloor>; d = x - of_int f
      in if d < 1 / 2 then f
         else if 1 / 2 < d then f + 1
         else if even f then f else f + 1)"

definition ulp_exponent :: "rat \<Rightarrow> int" where
  \<comment> \<open>53 significant bits; below \<open>2\<^sup>-\<^sup>1\<^sup>0\<^sup>2\<^sup>2\<close> the spacing stays \<open>2\<^sup>-\<^sup>1\<^sup>0\<^sup>7\<^sup>4\<close> (subnormals)\<close>
  "ulp_exponent q = max (ilog2 \<bar>q\<bar>) (- 1022) - 52"

definition round64 :: "rat \<Rightarrow> float64" where
  "round64 q =
     (if q = 0 then Finite 0
      else let e = ulp_exponent q;
               r = of_int (round_half_even (q / 2 powi e)) * 2 powi e
           in if 2 powi 1024 \<le> \<bar>r\<bar> then (if 0 < q then PInf else NInf)
              else if r = 0 then (if 0 < q then Finite 0 else NZero)
              else Finite r)"

definition is_float64 :: "float64 \<Rightarrow> bool" where
  \<comment> \<open>a finite value is a binary64 number iff rounding leaves it alone\<close>
  "is_float64 x = (case x of Finite q \<Rightarrow> round64 q = Finite q | _ \<Rightarrow> True)"

fun fval :: "float64 \<Rightarrow> rat" where
  "fval (Finite a) = a"
| "fval _ = 0"

fun neg64 :: "float64 \<Rightarrow> bool" where
  \<comment> \<open>the sign bit\<close>
  "neg64 (Finite a) = (a < 0)"
| "neg64 NZero = True"
| "neg64 NInf = True"
| "neg64 _ = False"

fun inf64 :: "float64 \<Rightarrow> bool" where
  "inf64 PInf = True"
| "inf64 NInf = True"
| "inf64 _ = False"

fun zero64 :: "float64 \<Rightarrow> bool" where
  "zero64 (Finite a) = (a = 0)"
| "zero64 NZero = True"
| "zero64 _ = False"

definition signed_zero :: "bool \<Rightarrow> float64" where
  "signed_zero neg = (if neg then NZero else Finite 0)"

definition signed_inf :: "bool \<Rightarrow> float64" where
  "signed_inf neg = (if neg then NInf else PInf)"

definition fadd :: "float64 \<Rightarrow> float64 \<Rightarrow> float64" where
  "fadd x y =
     (if x = NaN \<or> y = NaN then NaN
      else if inf64 x \<and> inf64 y then (if x = y then x else NaN)
      else if inf64 x then x
      else if inf64 y then y
      else if x = NZero \<and> y = NZero then NZero
      else round64 (fval x + fval y))"

definition fdiv :: "float64 \<Rightarrow> float64 \<Rightarrow> float64" where
  "fdiv x y =
     (if x = NaN \<or> y = NaN then NaN
      else if inf64 x then (if inf64 y then NaN else signed_inf (neg64 x \<noteq> neg64 y))
      else if inf64 y then signed_zero (neg64 x \<noteq> neg64 y)
      else if zero64 y then (if zero64 x then NaN else signed_inf (neg64 x \<noteq> neg64 y))
      else if zero64 x then signed_zero (neg64 x \<noteq> neg64 y)
      else round64 (fval x / fval y))"

definition fmul :: "float64 \<Rightarrow> float64 \<Rightarrow> float64" where
  "fmul x y =
     (if x = NaN \<or> y = NaN then NaN
      else if inf64 x \<or> inf64 y
        then (if zero64 x \<or> zero64 y then NaN else signed_inf (neg64 x \<noteq> neg64 y))
      else if zero64 x \<or> zero64 y then signed_zero (neg64 x \<noteq> neg64 y)
      else round64 (fval x * fval y))"

definition of_count :: "nat \<Rightarrow> float64" where
  \<comment> \<open>an integer count converted to float64\<close>
  "of_count n = round64 (of_nat n)"

definition drop_zero_sign :: "float64 \<Rightarrow> float64" where
  \<comment> \<open>\<open>-0.0\<close> becomes \<open>+0.0\<close>, every other number stays\<close>
  "drop_zero_sign x = (if x = NZero then Finite 0 else x)"

text \<open>
  The sum of a contiguous vector, as numpy computes it: fewer than eight numbers are
  added one after the other, starting from zero; up to 128 numbers are added in eight
  interleaved accumulators, which are then combined in pairs, and the numbers left over
  after the last full block of eight are added at the end; a longer vector is split
  near its middle, at a multiple of eight, and the sums of the halves are added.
\<close>

fun add_blocks :: "float64 list \<Rightarrow> float64 list \<Rightarrow> float64 list \<times> float64 list" where
  "add_blocks r (x0 # x1 # x2 # x3 # x4 # x5 # x6 # x7 # xs) =
     add_blocks (map2 fadd r [x0, x1, x2, x3, x4, x5, x6, x7]) xs"
| "add_blocks r xs = (r, xs)"

function pairwise_sum :: "float64 list \<Rightarrow> float64" where
  "pairwise_sum xs =
     (if length xs < 8 then foldl fadd (Finite 0) xs
      else if length xs \<le> 128 then
        (case add_blocks (take 8 xs) (drop 8 xs) of
           (r, rest) \<Rightarrow>
             foldl fadd
               (fadd (fadd (fadd (r ! 0) (r ! 1)) (fadd (r ! 2) (r ! 3)))
                     (fadd (fadd (r ! 4) (r ! 5)) (fadd (r ! 6) (r ! 7))))
               rest)
      else fadd (pairwise_sum (take (length xs div 2 - length xs div 2 mod 8) xs))
                (pairwise_sum (drop (length xs div 2 - length xs div 2 mod 8) xs)))"
  by pat_completeness auto
termination
  by (relation "measure length") auto

declare pairwise_sum.simps [simp del]

subsection \<open>Arrays and the numpy operations the helpers call\<close>

text \<open>
  A 2-D array keeps its column count next to its rows: an array with no rows still has
  a \<^verbatim>\<open>shape[1]\<close>. Its row count \<^verbatim>\<open>shape[0]\<close> is the length of \<open>data\<close>. A numpy array
  is rectangular (\<open>wf_ndarray\<close>) and a float64 array holds binary64 numbers
  (\<open>float64_ndarray\<close>); theorems assume so where they need it.

  A reduction over axis 0 of an array with several columns accumulates row by row, in
  the order of the rows: axis 0 is not its contiguous axis, and numpy's pairwise
  summation runs along the contiguous axis only. An array of a single column is a
  contiguous vector and is summed pairwise. The sign of a zero sum depends on the value
  numpy starts from (\<open>+0.0\<close> here); it never reaches the output of the helpers, which
  add the reduced row to a row of \<open>+0.0\<close>.
\<close>

record ndarray =
  ncols :: nat
  data :: "float64 list list"

definition wf_ndarray :: "ndarray \<Rightarrow> bool" where
  "wf_ndarray a = list_all (\<lambda>r. length r = ncols a) (data a)"

definition float64_ndarray :: "ndarray \<Rightarrow> bool" where
  "float64_ndarray a = list_all (list_all is_float64) (data a)"

text \<open>
  The descriptor block, as far as the helpers read it: the \<^verbatim>\<open>"structure"\<close> column of
  \<^verbatim>\<open>samples\<close> (one integer per row) and \<^verbatim>\<open>values\<close>. The source's names are kept
  but for \<^verbatim>\<open>values\<close> and \<^verbatim>\<open>mask\<close>, which are taken in Isabelle/HOL and are written
  \<open>block_values\<close> (\<open>vals\<close>) and \<open>msk\<close>.
\<close>

record descriptor =
  samples_structure :: "int list"
  block_values :: ndarray

datatype error =
  IndexError nat nat
    \<comment> \<open>boolean index did not match indexed array along axis 0: size of the axis, size of
        the boolean index\<close>

definition np_unique :: "int list \<Rightarrow> int list" where
  \<comment> \<open>sort, then drop every element equal to its predecessor\<close>
  "np_unique xs = remdups_adj (sort xs)"

definition np_zeros :: "nat \<Rightarrow> nat \<Rightarrow> ndarray" where
  "np_zeros n c = \<lparr>ncols = c, data = replicate n (replicate c (Finite 0))\<rparr>"

definition eq_mask :: "int list \<Rightarrow> int \<Rightarrow> bool list" where
  \<comment> \<open>\<^verbatim>\<open>samples["structure"] == structure\<close>\<close>
  "eq_mask smp structure = map (\<lambda>s. s = structure) smp"

definition bool_index :: "ndarray \<Rightarrow> bool list \<Rightarrow> error + ndarray" where
  \<comment> \<open>\<^verbatim>\<open>values[mask, :]\<close>: a new array of the rows where the mask holds\<close>
  "bool_index a msk =
     (if length msk \<noteq> length (data a) then Inl (IndexError (length (data a)) (length msk))
      else Inr \<lparr>ncols = ncols a, data = map snd (filter fst (zip msk (data a)))\<rparr>)"

definition np_sum :: "ndarray \<Rightarrow> float64 list" where
  \<comment> \<open>\<^verbatim>\<open>np.sum(a, axis=0)\<close>: the result starts as zeros. With a single column the column is
      a contiguous vector and its \<open>pairwise_sum\<close> is added; otherwise the rows are added
      one after the other, in their order, every addition rounded.\<close>
  "np_sum a =
     (if ncols a = 1 then [fadd (Finite 0) (pairwise_sum (map (\<lambda>r. r ! 0) (data a)))]
      else foldl (map2 fadd) (replicate (ncols a) (Finite 0)) (data a))"

definition np_mean :: "ndarray \<Rightarrow> float64 list" where
  \<comment> \<open>\<^verbatim>\<open>np.mean(a, axis=0)\<close>: the sum divided by the row count (NaN when there is no row)\<close>
  "np_mean a = map (\<lambda>s. fdiv s (of_count (length (data a)))) (np_sum a)"

definition iadd_row :: "ndarray \<Rightarrow> nat \<Rightarrow> float64 list \<Rightarrow> ndarray" where
  \<comment> \<open>\<^verbatim>\<open>output[i, :] += v\<close>; the loop passes a row \<open>i\<close> that \<open>output\<close> has\<close>
  "iadd_row out i v = out\<lparr>data := (data out)[i := map2 fadd (data out ! i) v]\<rparr>"

subsection \<open>The two helpers\<close>

text \<open>
  The loop body is the same in both helpers but for the reduction, which is a parameter
  here. The loop stops at the first exception.
\<close>

fun structures_loop ::
  "(ndarray \<Rightarrow> float64 list) \<Rightarrow> int list \<Rightarrow> ndarray \<Rightarrow> (nat \<times> int) list \<Rightarrow> ndarray
     \<Rightarrow> error + ndarray" where
  "structures_loop red smp vals [] output = Inr output"
| "structures_loop red smp vals ((i, structure) # rest) output =
     (let msk = eq_mask smp structure
      in case bool_index vals msk of
           Inl e \<Rightarrow> Inl e
         | Inr sel \<Rightarrow> structures_loop red smp vals rest (iadd_row output i (red sel)))"

definition average_over_structures :: "descriptor \<Rightarrow> error + ndarray" where
  "average_over_structures d =
     (let samples = samples_structure d;
          vals = block_values d;
          all_structures = np_unique samples;
          output = np_zeros (length all_structures) (ncols vals)
      in structures_loop np_mean samples vals (List.enumerate 0 all_structures) output)"

definition sum_over_structures :: "descriptor \<Rightarrow> error + ndarray" where
  "sum_over_structures d =
     (let samples = samples_structure d;
          vals = block_values d;
          all_structures = np_unique samples;
          output = np_zeros (length all_structures) (ncols vals)
      in structures_loop np_sum samples vals (List.enumerate 0 all_structures) output)"

subsection \<open>The helpers on a store\<close>

text \<open>
  To state what the helpers leave alone, the arrays live in a store and the helpers get
  references. A reference is a position in the store; allocation appends. The integer
  arrays (the \<^verbatim>\<open>"structure"\<close> column) and the float64 arrays are kept in two lists.
  \<^verbatim>\<open>np.zeros\<close> allocates the output; \<^verbatim>\<open>output[i, :] += ...\<close> writes into it in
  place; the mask, the selected rows and the reduced row are temporaries that nothing
  refers to after the iteration, so they are values here. The samples and the values are
  read from the store in every iteration, as the program reads them.
\<close>

record store =
  int_arrays :: "int list list"
  float_arrays :: "ndarray list"

fun structures_loop_store ::
  "(ndarray \<Rightarrow> float64 list) \<Rightarrow> nat \<Rightarrow> nat \<Rightarrow> nat \<Rightarrow> (nat \<times> int) list \<Rightarrow> store
     \<Rightarrow> error option \<times> store" where
  "structures_loop_store red ps pv po [] h = (None, h)"
| "structures_loop_store red ps pv po ((i, structure) # rest) h =
     (let msk = eq_mask (int_arrays h ! ps) structure
      in case bool_index (float_arrays h ! pv) msk of
           Inl e \<Rightarrow> (Some e, h)
         | Inr sel \<Rightarrow>
             structures_loop_store red ps pv po rest
               (h\<lparr>float_arrays :=
                    (float_arrays h)[po := iadd_row (float_arrays h ! po) i (red sel)]\<rparr>))"

definition over_structures_store ::
  "(ndarray \<Rightarrow> float64 list) \<Rightarrow> nat \<Rightarrow> nat \<Rightarrow> store \<Rightarrow> (error + nat) \<times> store" where
  "over_structures_store red ps pv h =
     (let all_structures = np_unique (int_arrays h ! ps);
          po = length (float_arrays h);
          h1 = h\<lparr>float_arrays :=
                   float_arrays h @
                     [np_zeros (length all_structures) (ncols (float_arrays h ! pv))]\<rparr>
      in case structures_loop_store red ps pv po (List.enumerate 0 all_structures) h1 of
           (None, h') \<Rightarrow> (Inr po, h')
         | (Some e, h') \<Rightarrow> (Inl e, h'))"

definition average_over_structures_store :: "nat \<Rightarrow> nat \<Rightarrow> store \<Rightarrow> (error + nat) \<times> store" where
  "average_over_structures_store = over_structures_store np_mean"

definition sum_over_structures_store :: "nat \<Rightarrow> nat \<Rightarrow> store \<Rightarrow> (error + nat) \<times> store" where
  "sum_over_structures_store = over_structures_store np_sum"

subsection \<open>The specification's reduction\<close>

text \<open>
  The specification describes the aggregation by groups: the rows of one structure are
  the rows whose index is that structure, and the aggregate is computed for each feature
  column on its own: the entries of the column are added and, for the mean, the sum is
  divided by their number. These definitions follow those words, with float64
  additions in numpy's order (in the order of the rows for an array of several columns,
  pairwise for a single column); the theorems compare them with the helpers.
\<close>

definition rows_of_structure :: "int list \<Rightarrow> float64 list list \<Rightarrow> int \<Rightarrow> float64 list list" where
  "rows_of_structure smp rows s = map snd (filter (\<lambda>kr. fst kr = s) (zip smp rows))"

definition structure_selection :: "descriptor \<Rightarrow> int \<Rightarrow> ndarray" where
  \<comment> \<open>the rows of one structure, as an array\<close>
  "structure_selection d s =
     \<lparr>ncols = ncols (block_values d),
      data = rows_of_structure (samples_structure d) (data (block_values d)) s\<rparr>"

definition spec_column_sum :: "nat \<Rightarrow> float64 list list \<Rightarrow> nat \<Rightarrow> float64" where
  \<comment> \<open>column \<open>j\<close> of the rows of an array of \<open>c\<close> columns, summed\<close>
  "spec_column_sum c rows j =
     (if c = 1 then fadd (Finite 0) (pairwise_sum (map (\<lambda>r. r ! j) rows))
      else foldl fadd (Finite 0) (map (\<lambda>r. r ! j) rows))"

definition spec_column_mean :: "nat \<Rightarrow> float64 list list \<Rightarrow> nat \<Rightarrow> float64" where
  "spec_column_mean c rows j = fdiv (spec_column_sum c rows j) (of_count (length rows))"

subsection \<open>Permuting the input rows\<close>

text \<open>
  The rows of the samples and of the values are permuted together: row \<open>k\<close> of the
  permuted input is row \<open>p ! k\<close> of the given one, for a list \<open>p\<close> that holds every
  row position once.
\<close>

definition permute_rows :: "nat list \<Rightarrow> descriptor \<Rightarrow> descriptor" where
  "permute_rows p d =
     \<lparr>samples_structure = map (\<lambda>k. samples_structure d ! k) p,
      block_values = \<lparr>ncols = ncols (block_values d),
                      data = map (\<lambda>k. data (block_values d) ! k) p\<rparr>\<rparr>"

subsection \<open>Inputs used in the concrete runs\<close>

text \<open>
  Three rows over the structure indices \<open>7, -2, 7\<close> (not sorted, not contiguous, one
  index repeated); a table with one row per index; three rows of one structure with a
  large and two small entries; seven rows of one structure; a table with an entry
  \<open>-0.0\<close>; and eight rows of a single column in one structure.
\<close>

abbreviation example_values :: ndarray where
  "example_values \<equiv>
     \<lparr>ncols = 2, data = [[Finite 1, Finite 1], [Finite 3, Finite 3], [Finite 5, Finite 5]]\<rparr>"

abbreviation example_descriptor :: descriptor where
  "example_descriptor \<equiv> \<lparr>samples_structure = [7, - 2, 7], block_values = example_values\<rparr>"

abbreviation example_table :: descriptor where
  "example_table \<equiv> \<lparr>samples_structure = [7, - 2, 3], block_values = example_values\<rparr>"

abbreviation example_large :: descriptor where
  "example_large \<equiv>
     \<lparr>samples_structure = [0, 0, 0],
      block_values = \<lparr>ncols = 2,
        data = [[Finite (2 ^ 53), Finite 0], [Finite 1, Finite 0], [Finite 1, Finite 0]]\<rparr>\<rparr>"

abbreviation example_seven :: descriptor where
  "example_seven \<equiv>
     \<lparr>samples_structure = [0, 0, 0, 0, 0, 0, 0],
      block_values = \<lparr>ncols = 1,
        data = [[Finite 5], [Finite 4], [Finite 4], [Finite 4], [Finite 4], [Finite 4], [Finite 4]]\<rparr>\<rparr>"

abbreviation example_negzero :: descriptor where
  "example_negzero \<equiv>
     \<lparr>samples_structure = [7, - 2],
      block_values = \<lparr>ncols = 2, data = [[NZero, Finite 1], [Finite 3, Finite 3]]\<rparr>\<rparr>"

abbreviation example_column :: descriptor where
  "example_column \<equiv>
     \<lparr>samples_structure = [0, 0, 0, 0, 0, 0, 0, 0],
      block_values = \<lparr>ncols = 1,
        data = [[Finite (2 ^ 53)], [Finite 1], [Finite 1], [Finite 1], [Finite 1], [Finite 1],
                [Finite 1], [Finite 1]]\<rparr>\<rparr>"

section \<open>Properties of the rounding\<close>

text \<open>
  \<open>ilog2\<close> is the binary exponent of a positive rational, rounding to half-even stays
  between the neighbouring integers, and a rounded value is a fixed point of the
  rounding: every result of an operation is a binary64 number.
\<close>

lemma bitlen_powi_bounds:
  assumes "0 < a"
  shows "(2::rat) powi (bitlen a - 1) \<le> of_int a" and "of_int a < (2::rat) powi bitlen a"
proof -
  have ge1: "1 \<le> bitlen a" using assms by (simp add: bitlen_alt_def)
  from bitlen_bounds[OF assms]
  have lo: "2 ^ nat (bitlen a - 1) \<le> a" and hi: "a < 2 ^ nat (bitlen a)" by simp_all
  have "(of_int (2 ^ nat (bitlen a - 1)) :: rat) \<le> of_int a"
    using lo by (simp only: of_int_le_iff)
  then show "(2::rat) powi (bitlen a - 1) \<le> of_int a"
    using ge1 by (simp add: power_int_def)
  have "(of_int a :: rat) < of_int (2 ^ nat (bitlen a))"
    using hi by (simp only: of_int_less_iff)
  then show "of_int a < (2::rat) powi bitlen a"
    using ge1 by (simp add: power_int_def)
qed

lemma ilog2_bounds:
  assumes "0 < x"
  shows "2 powi ilog2 x \<le> x \<and> x < 2 powi (ilog2 x + 1)"
proof -
  obtain a b where ab: "quotient_of x = (a, b)" by (cases "quotient_of x")
  have b: "0 < b" using quotient_of_denom_pos[OF ab] .
  have x: "x = of_int a / of_int b" using quotient_of_div[OF ab] .
  have a: "0 < a" using assms b x by (simp add: zero_less_divide_iff)
  define l where "l = bitlen a - bitlen b"
  have B: "0 < (of_int b :: rat)" using b by simp
  have up: "x < 2 powi (l + 1)"
  proof -
    have "of_int a < (2::rat) powi bitlen a" using bitlen_powi_bounds(2)[OF a] .
    moreover have "(2::rat) powi (bitlen b - 1) \<le> of_int b" using bitlen_powi_bounds(1)[OF b] .
    moreover have "(2::rat) powi (l + 1) * 2 powi (bitlen b - 1) = 2 powi bitlen a"
      by (simp add: l_def flip: power_int_add)
    moreover have "(2::rat) powi (l + 1) * 2 powi (bitlen b - 1) \<le> 2 powi (l + 1) * of_int b"
      using bitlen_powi_bounds(1)[OF b] by (intro mult_left_mono) simp_all
    ultimately have "of_int a < (2::rat) powi (l + 1) * of_int b"
      by simp
    then show ?thesis using B by (simp add: x pos_divide_less_eq)
  qed
  have lo: "2 powi (l - 1) < x"
  proof -
    have "(2::rat) powi (bitlen a - 1) \<le> of_int a" using bitlen_powi_bounds(1)[OF a] .
    moreover have "of_int b < (2::rat) powi bitlen b" using bitlen_powi_bounds(2)[OF b] .
    moreover have "(2::rat) powi (l - 1) * 2 powi (bitlen b) = 2 powi (bitlen a - 1)"
      by (simp add: l_def flip: power_int_add)
    moreover have "(2::rat) powi (l - 1) * of_int b < 2 powi (l - 1) * 2 powi (bitlen b)"
      using bitlen_powi_bounds(2)[OF b] by (intro mult_strict_left_mono) simp_all
    ultimately have "(2::rat) powi (l - 1) * of_int b < of_int a"
      by simp
    then show ?thesis using B by (simp add: x pos_less_divide_eq)
  qed
  show ?thesis
  proof (cases "2 powi l \<le> x")
    case True
    then have "ilog2 x = l" by (simp add: ilog2_def ab l_def)
    then show ?thesis using True up by simp
  next
    case False
    then have "ilog2 x = l - 1" by (simp add: ilog2_def ab l_def)
    then show ?thesis using False lo by simp
  qed
qed

lemma powi2_less_imp_less:
  assumes "(2::rat) powi m < 2 powi n"
  shows "m < n"
proof (rule ccontr)
  assume "\<not> m < n"
  then have "n \<le> m" by simp
  then have "(2::rat) powi n \<le> 2 powi m" by (intro power_int_increasing) simp_all
  with assms show False by simp
qed

lemma ilog2_unique:
  assumes "2 powi k \<le> x" and "x < 2 powi (k + 1)"
  shows "ilog2 x = k"
proof -
  have "0 < (2::rat) powi k" by simp
  then have pos: "0 < x" using assms(1) by (rule less_le_trans)
  from ilog2_bounds[OF pos] have b: "2 powi ilog2 x \<le> x" "x < 2 powi (ilog2 x + 1)" by simp_all
  have "(2::rat) powi k < 2 powi (ilog2 x + 1)" using assms(1) b(2) by simp
  then have 1: "k < ilog2 x + 1" by (rule powi2_less_imp_less)
  have "(2::rat) powi ilog2 x < 2 powi (k + 1)" using assms(2) b(1) by simp
  then have 2: "ilog2 x < k + 1" by (rule powi2_less_imp_less)
  from 1 2 show ?thesis by simp
qed

lemma round_half_even_of_int: "round_half_even (of_int n) = n"
  by (simp add: round_half_even_def)

lemma round_half_even_ge:
  assumes "of_int m \<le> x"
  shows "m \<le> round_half_even x"
proof -
  have "m \<le> \<lfloor>x\<rfloor>" using assms by (simp add: le_floor_iff)
  then show ?thesis by (simp add: round_half_even_def Let_def)
qed


lemma round_half_even_le:
  assumes "x \<le> of_int m"
  shows "round_half_even x \<le> m"
proof (cases "x = of_int m")
  case True
  then show ?thesis by (simp add: round_half_even_of_int)
next
  case False
  then have "x < of_int m" using assms by simp
  then have "\<lfloor>x\<rfloor> < m" by (simp add: floor_less_iff)
  then show ?thesis by (simp add: round_half_even_def Let_def)
qed

lemma powi2_add: "(2::rat) powi a * 2 powi b = 2 powi (a + b)"
  by (simp add: power_int_add)

lemma round64_fixI:
  assumes "q \<noteq> 0"
    and "of_int (round_half_even (q / 2 powi ulp_exponent q)) * 2 powi ulp_exponent q = q"
    and "\<bar>q\<bar> < 2 powi 1024"
  shows "round64 q = Finite q"
  using assms by (simp add: round64_def Let_def)

lemma round64_idem:
  assumes "round64 q = Finite r"
  shows "round64 r = Finite r"
proof (cases "q = 0")
  case True
  with assms have "r = 0" by (simp add: round64_def)
  then show ?thesis by (simp add: round64_def)
next
  case qnz: False
  define k where "k = ilog2 \<bar>q\<bar>"
  define K where "K = max k (- 1022)"
  define e where "e = K - 52"
  define p where "p = (2::rat) powi e"
  define x where "x = q / p"
  define n where "n = round_half_even x"
  have p: "0 < p" by (simp add: p_def)
  have eK: "53 + e = K + 1" "52 + e = K" by (simp_all add: e_def)
  have e: "ulp_exponent q = e" by (simp add: ulp_exponent_def e_def K_def k_def)
  have r: "r = of_int n * p" and small: "\<bar>of_int n * p\<bar> < 2 powi 1024"
    using assms qnz unfolding round64_def Let_def e n_def x_def p_def
    by (auto split: if_splits)
  have kb: "2 powi k \<le> \<bar>q\<bar>" "\<bar>q\<bar> < 2 powi (k + 1)"
    using ilog2_bounds[of "\<bar>q\<bar>"] qnz by (simp_all add: k_def)
  have absx: "\<bar>x\<bar> = \<bar>q\<bar> / p" using p by (simp add: x_def)
  have "\<bar>q\<bar> < 2 powi (K + 1)"
  proof -
    have "(2::rat) powi (k + 1) \<le> 2 powi (K + 1)"
      by (intro power_int_increasing) (simp_all add: K_def)
    with kb(2) show ?thesis by simp
  qed
  also have "(2::rat) powi (K + 1) = 2 powi 53 * p"
    unfolding p_def powi2_add eK by simp
  finally have xb: "\<bar>x\<bar> < 2 powi 53" using p by (simp add: absx pos_divide_less_eq)
  have nub: "n \<le> 2 ^ 53"
    unfolding n_def by (rule round_half_even_le) (use xb in simp)
  have nlb: "- (2 ^ 53) \<le> n"
    unfolding n_def by (rule round_half_even_ge) (use xb in simp)
  have absr: "\<bar>r\<bar> = of_int \<bar>n\<bar> * p" using p by (simp add: r abs_mult)
  have small': "\<bar>r\<bar> < 2 powi 1024" using small by (simp only: r)
  show ?thesis
  proof (cases "n = 0")
    case True
    then show ?thesis by (simp add: r round64_def)
  next
    case nnz: False
    then have rnz: "r \<noteq> 0" using p by (simp add: r)
    show ?thesis
    proof (cases "\<bar>n\<bar> = 2 ^ 53")
      case True
      then have "\<bar>r\<bar> = 2 powi 53 * p" by (simp add: absr)
      then have ar: "\<bar>r\<bar> = 2 powi (K + 1)"
        unfolding p_def powi2_add eK by simp
      have "ilog2 \<bar>r\<bar> = K + 1"
        by (rule ilog2_unique) (simp_all add: ar power_int_strict_increasing)
      moreover have "- 1022 \<le> K" by (simp add: K_def)
      ultimately have e': "ulp_exponent r = e + 1"
        by (simp add: ulp_exponent_def e_def)
      have "(2::rat) powi (e + 1) = 2 * p"
        by (simp add: p_def power_int_add)
      then have pe: "(2::rat) powi (e + 1) = 2 * p" .
      have "even \<bar>n\<bar>" unfolding True by simp
      then have "even n" by simp
      then obtain m where m: "n = 2 * m" by (elim evenE)
      have "r / (2 * p) = of_int m" using p by (simp add: r m)
      then have "of_int (round_half_even (r / 2 powi (e + 1))) * 2 powi (e + 1) = r"
        using p by (simp add: pe round_half_even_of_int r m)
      then have "of_int (round_half_even (r / 2 powi ulp_exponent r)) * 2 powi ulp_exponent r = r"
        by (simp only: e')
      with rnz show ?thesis using small' by (rule round64_fixI)
    next
      case False
      then have nlt: "\<bar>n\<bar> < 2 ^ 53" using nub nlb by linarith
      have "(of_int \<bar>n\<bar> :: rat) < of_int (2 ^ 53)" using nlt by (simp only: of_int_less_iff)
      then have "(of_int \<bar>n\<bar> :: rat) < 2 powi 53" by simp
      then have "of_int \<bar>n\<bar> * p < 2 powi 53 * p"
        using p by (intro mult_strict_right_mono) simp_all
      then have rub: "\<bar>r\<bar> < 2 powi (K + 1)"
        unfolding absr p_def powi2_add eK by simp
      have rpos: "0 < \<bar>r\<bar>" using rnz by simp
      from ilog2_bounds[OF rpos] have rb: "2 powi ilog2 \<bar>r\<bar> \<le> \<bar>r\<bar>" "\<bar>r\<bar> < 2 powi (ilog2 \<bar>r\<bar> + 1)"
        by simp_all
      have "(2::rat) powi ilog2 \<bar>r\<bar> < 2 powi (K + 1)" using rb(1) rub by simp
      then have le: "ilog2 \<bar>r\<bar> \<le> K" using powi2_less_imp_less by fastforce
      have maxK: "max (ilog2 \<bar>r\<bar>) (- 1022) = K"
      proof (cases "k \<le> - 1022")
        case True
        then have "K = - 1022" by (simp add: K_def)
        with le show ?thesis by simp
      next
        case False
        then have Kk: "K = k" by (simp add: K_def)
        have "2 powi 52 * p = (2::rat) powi k"
          unfolding p_def powi2_add eK Kk by simp
        with kb(1) have "2 powi 52 * p \<le> \<bar>q\<bar>" by simp
        then have xl: "2 powi 52 \<le> \<bar>x\<bar>" using p by (simp add: absx pos_le_divide_eq)
        have "2 ^ 52 \<le> \<bar>n\<bar>"
        proof (cases "0 \<le> x")
          case True
          then have "of_int (2 ^ 52) \<le> x" using xl by simp
          then have "2 ^ 52 \<le> n" unfolding n_def by (rule round_half_even_ge)
          then show ?thesis by simp
        next
          case False
          then have "x \<le> of_int (- (2 ^ 52))" using xl by simp
          then have "n \<le> - (2 ^ 52)" unfolding n_def by (rule round_half_even_le)
          then show ?thesis by simp
        qed
        then have "(of_int (2 ^ 52) :: rat) \<le> of_int \<bar>n\<bar>" by (simp only: of_int_le_iff)
        then have "(2::rat) powi 52 \<le> of_int \<bar>n\<bar>" by simp
        then have "(2::rat) powi 52 * p \<le> of_int \<bar>n\<bar> * p"
          using p by (intro mult_right_mono) simp_all
        then have "2 powi K \<le> \<bar>r\<bar>"
          unfolding absr p_def powi2_add eK by simp
        with rb(2) have "(2::rat) powi K < 2 powi (ilog2 \<bar>r\<bar> + 1)" by simp
        then have "K < ilog2 \<bar>r\<bar> + 1" by (rule powi2_less_imp_less)
        with le have "ilog2 \<bar>r\<bar> = K" by simp
        moreover have "- 1022 \<le> K" by (simp add: K_def)
        ultimately show ?thesis by simp
      qed
      then have e': "ulp_exponent r = e" by (simp add: ulp_exponent_def e_def)
      have "r / p = of_int n" using p by (simp add: r)
      then have "of_int (round_half_even (r / 2 powi e)) * 2 powi e = r"
        by (simp add: round_half_even_of_int r flip: p_def)
      then have "of_int (round_half_even (r / 2 powi ulp_exponent r)) * 2 powi ulp_exponent r = r"
        by (simp only: e')
      with rnz show ?thesis using small' by (rule round64_fixI)
    qed
  qed
qed

lemma is_float64_round64: "is_float64 (round64 q)"
  by (cases "round64 q") (simp_all add: is_float64_def round64_idem)

section \<open>Evaluating the rounding\<close>

text \<open>
  A rounding is computed from the binade of its argument. Integers up to \<open>2\<^sup>5\<^sup>3\<close> in
  magnitude are binary64 numbers, so small counts and small integer entries are exact.
\<close>

lemma round64_eval:
  assumes "2 powi k \<le> \<bar>q\<bar>" and "\<bar>q\<bar> < 2 powi (k + 1)"
    and "e = max k (- 1022) - 52"
    and "round_half_even (q / 2 powi e) = n"
    and "r = of_int n * 2 powi e"
    and "\<bar>r\<bar> < 2 powi 1024"
    and "n \<noteq> 0"
  shows "round64 q = Finite r"
proof -
  have k: "ilog2 \<bar>q\<bar> = k" using assms(1,2) by (rule ilog2_unique)
  have "0 < (2::rat) powi k" by simp
  then have "0 < \<bar>q\<bar>" using assms(1) by (rule less_le_trans)
  then have "q \<noteq> 0" by simp
  moreover have "ulp_exponent q = e" by (simp add: ulp_exponent_def k assms(3))
  ultimately show ?thesis using assms(4,5,6,7) by (simp add: round64_def Let_def)
qed

lemma floor_numeral_div: "\<lfloor>(numeral a :: rat) / numeral b\<rfloor> = numeral a div numeral b"
  using floor_divide_of_int_eq[of "numeral a" "numeral b", where ?'a = rat] by simp

lemma round64_of_int:
  assumes "\<bar>n\<bar> \<le> 2 ^ 53"
  shows "round64 (of_int n) = Finite (of_int n)"
proof (cases "n = 0")
  case True
  then show ?thesis by (simp add: round64_def)
next
  case False
  define q :: rat where "q = of_int n"
  define k where "k = ilog2 \<bar>q\<bar>"
  have qpos: "0 < \<bar>q\<bar>" using False by (simp add: q_def)
  have kb: "2 powi k \<le> \<bar>q\<bar>" "\<bar>q\<bar> < 2 powi (k + 1)"
    using ilog2_bounds[OF qpos] by (simp_all add: k_def)
  have absq: "\<bar>q\<bar> = of_int \<bar>n\<bar>" by (simp add: q_def)
  have "1 \<le> \<bar>n\<bar>" using False by simp
  then have "(of_int 1 :: rat) \<le> of_int \<bar>n\<bar>" by (simp only: of_int_le_iff)
  then have "(1::rat) \<le> of_int \<bar>n\<bar>" by simp
  then have "(2::rat) powi 0 < 2 powi (k + 1)" using kb(2) absq by simp
  then have k0: "0 \<le> k" using powi2_less_imp_less by fastforce
  have "(of_int \<bar>n\<bar> :: rat) \<le> of_int (2 ^ 53)" using assms by (simp only: of_int_le_iff)
  then have "\<bar>q\<bar> < 2 powi 54" by (simp add: absq)
  with kb(1) have "(2::rat) powi k < 2 powi 54" by simp
  then have k53: "k \<le> 53" using powi2_less_imp_less by fastforce
  have e: "ulp_exponent q = k - 52" using k0 by (simp add: ulp_exponent_def k_def)
  have small: "\<bar>q\<bar> < 2 powi 1024"
  proof -
    have "\<bar>q\<bar> < 2 powi 54" by fact
    also have "(2::rat) powi 54 \<le> 2 powi 1024" by (intro power_int_increasing) simp_all
    finally show ?thesis .
  qed
  have "\<exists>m. q = of_int m * 2 powi (k - 52)"
  proof (cases "k = 53")
    case True
    then have "2 ^ 53 \<le> \<bar>q\<bar>" using kb(1) by simp
    then have "(of_int (2 ^ 53) :: rat) \<le> of_int \<bar>n\<bar>" by (simp add: absq)
    then have "2 ^ 53 \<le> \<bar>n\<bar>" by (simp only: of_int_le_iff)
    with assms have eq: "\<bar>n\<bar> = 2 ^ 53" by simp
    have "even \<bar>n\<bar>" unfolding eq by simp
    then have "even n" by simp
    then obtain m where "n = 2 * m" by (elim evenE)
    then have "q = of_int m * 2 powi (k - 52)" by (simp add: q_def True)
    then show ?thesis ..
  next
    case False
    then have le: "k \<le> 52" using k53 by simp
    have "(2::rat) powi (52 - k) * 2 powi (k - 52) = 1"
      unfolding powi2_add by simp
    moreover have "(2::rat) powi (52 - k) = of_int (2 ^ nat (52 - k))"
      using le by (simp add: power_int_def)
    ultimately have "q = of_int (n * 2 ^ nat (52 - k)) * 2 powi (k - 52)"
      by (simp add: q_def)
    then show ?thesis ..
  qed
  then obtain m where m: "q = of_int m * 2 powi (k - 52)" ..
  have quot: "q / 2 powi (k - 52) = of_int m" by (simp add: m)
  have "of_int (round_half_even (q / 2 powi (k - 52))) * 2 powi (k - 52) = q"
    unfolding quot round_half_even_of_int by (rule m[symmetric])
  then have "of_int (round_half_even (q / 2 powi ulp_exponent q)) * 2 powi ulp_exponent q = q"
    by (simp only: e)
  with qpos have "round64 q = Finite q" using small by (intro round64_fixI) simp_all
  then show ?thesis by (simp add: q_def)
qed

lemma round64_numeral:
  "numeral w \<le> (2 ^ 53 :: int) \<Longrightarrow> round64 (numeral w) = Finite (numeral w)"
  using round64_of_int[of "numeral w"] by simp

lemma round64_zero: "round64 0 = Finite 0"
  by (simp add: round64_def)

lemma round64_one: "round64 1 = Finite 1"
  using round64_of_int[of 1] by simp

lemma of_count_exact: "n \<le> 2 ^ 53 \<Longrightarrow> of_count n = Finite (of_nat n)"
proof -
  assume "n \<le> 2 ^ 53"
  then have "int n \<le> int (2 ^ 53)" by (simp only: of_nat_le_iff)
  then have "int n \<le> 2 ^ 53" by simp
  then show ?thesis using round64_of_int[of "int n"] by (simp add: of_count_def)
qed

lemma is_float64_numeral:
  "numeral w \<le> (2 ^ 53 :: int) \<Longrightarrow> is_float64 (Finite (numeral w))"
  by (simp add: is_float64_def round64_numeral)

lemma is_float64_one: "is_float64 (Finite 1)"
  by (simp add: is_float64_def round64_one)

lemma of_count_small:
  "of_count (Suc 0) = Finite 1"
  "of_count (Suc (Suc 0)) = Finite 2"
  "of_count (Suc (Suc (Suc 0))) = Finite 3"
  "of_count (Suc (Suc (Suc (Suc (Suc (Suc (Suc 0))))))) = Finite 7"
  "of_count 7 = Finite 7"
  by (simp_all add: of_count_def round64_one round64_numeral)

section \<open>Properties of the array operations and of the loop\<close>

subsection \<open>float64 operations\<close>

lemma is_float64_simps [simp]:
  "is_float64 NaN" "is_float64 PInf" "is_float64 NInf" "is_float64 NZero" "is_float64 (Finite 0)"
  by (simp_all add: is_float64_def round64_def)

lemma is_float64_signed [simp]: "is_float64 (signed_zero b)" "is_float64 (signed_inf b)"
  by (simp_all add: signed_zero_def signed_inf_def)

lemma fadd_Finite: "fadd (Finite a) (Finite b) = round64 (a + b)"
  by (simp add: fadd_def)

lemma fdiv_Finite: "a \<noteq> 0 \<Longrightarrow> b \<noteq> 0 \<Longrightarrow> fdiv (Finite a) (Finite b) = round64 (a / b)"
  by (simp add: fdiv_def)

lemma fdiv_zero_Finite: "0 < b \<Longrightarrow> fdiv (Finite 0) (Finite b) = Finite 0"
  by (simp add: fdiv_def signed_zero_def)

lemma fmul_Finite: "a \<noteq> 0 \<Longrightarrow> b \<noteq> 0 \<Longrightarrow> fmul (Finite a) (Finite b) = round64 (a * b)"
  by (simp add: fmul_def)

lemma is_float64_fadd: "is_float64 (fadd x y)"
  by (cases x; cases y) (simp_all add: fadd_def is_float64_round64)

lemma is_float64_fdiv: "is_float64 (fdiv x y)"
  by (simp add: fdiv_def is_float64_round64)

text \<open>
  Adding a binary64 number to \<open>+0.0\<close> gives the number, but for \<open>-0.0\<close>, which
  becomes \<open>+0.0\<close>.
\<close>

lemma fadd_zero_left: "is_float64 x \<Longrightarrow> fadd (Finite 0) x = drop_zero_sign x"
  by (cases x) (simp_all add: fadd_def drop_zero_sign_def is_float64_def round64_def[of 0])

lemma drop_zero_sign_simps [simp]:
  "drop_zero_sign NZero = Finite 0" "drop_zero_sign (Finite a) = Finite a"
  "drop_zero_sign PInf = PInf" "drop_zero_sign NInf = NInf" "drop_zero_sign NaN = NaN"
  by (simp_all add: drop_zero_sign_def)

lemma drop_zero_sign_id: "x \<noteq> NZero \<Longrightarrow> drop_zero_sign x = x"
  by (simp add: drop_zero_sign_def)

lemma drop_zero_sign_idem [simp]: "drop_zero_sign (drop_zero_sign x) = drop_zero_sign x"
  by (simp add: drop_zero_sign_def)

lemma is_float64_drop_zero_sign: "is_float64 x \<Longrightarrow> is_float64 (drop_zero_sign x)"
  by (simp add: drop_zero_sign_def)

lemma fadd_zero_drop: "is_float64 x \<Longrightarrow> fadd (Finite 0) (drop_zero_sign x) = drop_zero_sign x"
  by (simp add: fadd_zero_left is_float64_drop_zero_sign)

lemma fadd_zero_signed_zero: "fadd (Finite 0) (signed_zero b) = Finite 0"
  by (simp add: fadd_def signed_zero_def round64_def)

lemma of_count_one: "of_count (Suc 0) = Finite 1"
  by (simp add: of_count_def round64_one)

lemma fdiv_one: "is_float64 x \<Longrightarrow> fdiv x (Finite 1) = x"
  by (cases x) (auto simp: fdiv_def is_float64_def signed_zero_def signed_inf_def)

text \<open>
  The sign of a zero dividend does not show once the quotient is added to \<open>+0.0\<close>.
\<close>

lemma fadd_zero_fdiv_drop:
  "fadd (Finite 0) (fdiv (drop_zero_sign x) y) = fadd (Finite 0) (fdiv x y)"
proof (cases "x = NZero")
  case True
  show ?thesis
    unfolding True by (cases y) (auto simp: fdiv_def fadd_zero_signed_zero)
next
  case False
  then show ?thesis by (simp add: drop_zero_sign_id)
qed

subsection \<open>np.unique\<close>

lemma distinct_remdups_adj_sorted:
  fixes xs :: "int list"
  shows "sorted xs \<Longrightarrow> distinct (remdups_adj xs)"
  by (induction xs rule: remdups_adj.induct) auto

lemma sorted_np_unique: "sorted_wrt (<) (np_unique xs)"
  by (simp add: np_unique_def strict_sorted_iff distinct_remdups_adj_sorted)

lemma set_np_unique: "set (np_unique xs) = set xs"
  by (simp add: np_unique_def)

lemma distinct_np_unique: "distinct (np_unique xs)"
  using sorted_np_unique[of xs] by (simp add: strict_sorted_iff)

lemma length_np_unique: "length (np_unique xs) = card (set xs)"
  using distinct_card[OF distinct_np_unique[of xs]] by (simp add: set_np_unique)

lemma np_unique_distinct: "distinct xs \<Longrightarrow> np_unique xs = sort xs"
  by (simp add: np_unique_def remdups_adj_distinct)

lemma np_unique_mset: "mset xs = mset ys \<Longrightarrow> np_unique xs = np_unique ys"
proof -
  assume "mset xs = mset ys"
  then have "sorted_list_of_multiset (mset xs) = sorted_list_of_multiset (mset ys)" by simp
  then have "sort xs = sort ys" by simp
  then show ?thesis by (simp add: np_unique_def)
qed

subsection \<open>mask and selection\<close>

lemma filter_mask_zip:
  "length smp = length rows \<Longrightarrow>
   map snd (filter fst (zip (map (\<lambda>s'. s' = s) smp) rows)) = map snd (filter (\<lambda>kr. fst kr = s) (zip smp rows))"
  by (induction smp rows rule: list_induct2) simp_all

lemma bool_index_eq_mask:
  "length smp = length (data vals) \<Longrightarrow>
   bool_index vals (eq_mask smp s) = Inr \<lparr>ncols = ncols vals, data = rows_of_structure smp (data vals) s\<rparr>"
  by (simp add: bool_index_def eq_mask_def rows_of_structure_def filter_mask_zip)

lemma bool_index_eq_mask_mismatch:
  "length smp \<noteq> length (data vals) \<Longrightarrow>
   bool_index vals (eq_mask smp s) = Inl (IndexError (length (data vals)) (length smp))"
  by (simp add: bool_index_def eq_mask_def)

lemma length_rows_of_structure:
  "length smp = length rows \<Longrightarrow> length (rows_of_structure smp rows s) = count_list smp s"
  by (induction smp rows rule: list_induct2) (simp_all add: rows_of_structure_def)


lemma set_rows_of_structure: "set (rows_of_structure smp rows s) \<subseteq> set rows"
  by (auto simp: rows_of_structure_def dest: set_zip_rightD)


subsection \<open>the loop\<close>

lemma structures_loop_enumerate:
  assumes "length smp = length (data vals)"
  shows "n + length us \<le> length (data out) \<Longrightarrow>
    structures_loop red smp vals (List.enumerate n us) out =
      Inr (out\<lparr>data := map (\<lambda>i. if n \<le> i \<and> i < n + length us
                   then map2 fadd (data out ! i)
                          (red \<lparr>ncols = ncols vals, data = rows_of_structure smp (data vals) (us ! (i - n))\<rparr>)
                   else data out ! i) [0..<length (data out)]\<rparr>)"
proof (induction us arbitrary: n out)
  case Nil
  have "map (\<lambda>i. if n \<le> i \<and> i < n + length ([]::int list)
                   then map2 fadd (data out ! i)
                          (red \<lparr>ncols = ncols vals, data = rows_of_structure smp (data vals) ([] ! (i - n))\<rparr>)
                   else data out ! i) [0..<length (data out)] = data out"
    by (intro nth_equalityI) auto
  then show ?case by simp
next
  case (Cons u us)
  let ?sel = "\<lambda>s. \<lparr>ncols = ncols vals, data = rows_of_structure smp (data vals) s\<rparr>"
  let ?out1 = "iadd_row out n (red (?sel u))"
  have len1: "length (data ?out1) = length (data out)" by (simp add: iadd_row_def)
  have "structures_loop red smp vals (List.enumerate n (u # us)) out =
        structures_loop red smp vals (List.enumerate (Suc n) us) ?out1"
    by (simp add: bool_index_eq_mask[OF assms])
  also have "\<dots> = Inr (?out1\<lparr>data := map (\<lambda>i. if Suc n \<le> i \<and> i < Suc n + length us
                   then map2 fadd (data ?out1 ! i) (red (?sel (us ! (i - Suc n))))
                   else data ?out1 ! i) [0..<length (data ?out1)]\<rparr>)"
    using Cons.prems by (intro Cons.IH) (simp add: len1)
  also have "\<dots> = Inr (out\<lparr>data := map (\<lambda>i. if n \<le> i \<and> i < n + length (u # us)
                   then map2 fadd (data out ! i) (red (?sel ((u # us) ! (i - n))))
                   else data out ! i) [0..<length (data out)]\<rparr>)"
    using Cons.prems
    by (auto simp: iadd_row_def nth_list_update nth_Cons' Suc_diff_le intro!: nth_equalityI)
  finally show ?case .
qed

lemma structures_loop_zeros:
  assumes "length smp = length (data vals)"
  shows "structures_loop red smp vals (List.enumerate 0 us) (np_zeros (length us) c) =
      Inr \<lparr>ncols = c, data = map (\<lambda>s. map2 fadd (replicate c (Finite 0))
              (red \<lparr>ncols = ncols vals, data = rows_of_structure smp (data vals) s\<rparr>)) us\<rparr>"
proof -
  have "structures_loop red smp vals (List.enumerate 0 us) (np_zeros (length us) c) =
      Inr ((np_zeros (length us) c)\<lparr>data := map (\<lambda>i. if 0 \<le> i \<and> i < 0 + length us
                   then map2 fadd (data (np_zeros (length us) c) ! i)
                          (red \<lparr>ncols = ncols vals, data = rows_of_structure smp (data vals) (us ! (i - 0))\<rparr>)
                   else data (np_zeros (length us) c) ! i) [0..<length (data (np_zeros (length us) c))]\<rparr>)"
    by (rule structures_loop_enumerate[OF assms]) (simp add: np_zeros_def)
  also have "\<dots> = Inr \<lparr>ncols = c, data = map (\<lambda>s. map2 fadd (replicate c (Finite 0))
              (red \<lparr>ncols = ncols vals, data = rows_of_structure smp (data vals) s\<rparr>)) us\<rparr>"
    by (auto simp: np_zeros_def intro!: nth_equalityI)
  finally show ?thesis .
qed

subsection \<open>np.sum and np.mean\<close>

lemma pairwise_sum_small: "length xs < 8 \<Longrightarrow> pairwise_sum xs = foldl fadd (Finite 0) xs"
  by (subst pairwise_sum.simps) simp

lemma pairwise_sum_block:
  "8 \<le> length xs \<Longrightarrow> length xs \<le> 128 \<Longrightarrow>
   pairwise_sum xs =
     (case add_blocks (take 8 xs) (drop 8 xs) of (r, rest) \<Rightarrow>
        foldl fadd (fadd (fadd (fadd (r ! 0) (r ! 1)) (fadd (r ! 2) (r ! 3)))
                         (fadd (fadd (r ! 4) (r ! 5)) (fadd (r ! 6) (r ! 7)))) rest)"
  by (subst pairwise_sum.simps) simp

lemma length_foldl_map2:
  "length r = c \<Longrightarrow> list_all (\<lambda>x. length x = c) rs \<Longrightarrow> length (foldl (map2 f) r rs) = c"
  by (induction rs arbitrary: r) simp_all

lemma nth_foldl_map2:
  "length r = c \<Longrightarrow> list_all (\<lambda>x. length x = c) rs \<Longrightarrow> j < c \<Longrightarrow>
   foldl (map2 f) r rs ! j = foldl f (r ! j) (map (\<lambda>x. x ! j) rs)"
  by (induction rs arbitrary: r) simp_all

lemma list_all_map2_fadd: "list_all is_float64 (map2 fadd a b)"
  by (simp add: list_all_iff is_float64_fadd split_beta)

lemma list_all_foldl_map2_fadd:
  "list_all is_float64 r \<Longrightarrow> list_all is_float64 (foldl (map2 fadd) r rs)"
  by (induction rs arbitrary: r) (simp_all add: list_all_map2_fadd)

lemma length_np_sum: "wf_ndarray a \<Longrightarrow> length (np_sum a) = ncols a"
  by (simp add: np_sum_def wf_ndarray_def length_foldl_map2)

text \<open>
  Every column is summed on its own: entry \<open>j\<close> of the sum is the sum of column \<open>j\<close>.
\<close>

lemma nth_np_sum:
  assumes "wf_ndarray a" and "j < ncols a"
  shows "np_sum a ! j = spec_column_sum (ncols a) (data a) j"
proof (cases "ncols a = 1")
  case True
  then have "j = 0" using assms(2) by simp
  then show ?thesis using True by (simp add: np_sum_def spec_column_sum_def)
next
  case False
  then show ?thesis
    using assms by (simp add: np_sum_def wf_ndarray_def spec_column_sum_def nth_foldl_map2)
qed

lemma float64_np_sum: "list_all is_float64 (np_sum a)"
proof -
  have "list_all is_float64 (replicate (ncols a) (Finite 0))" by (simp add: list_all_iff)
  then have "list_all is_float64 (foldl (map2 fadd) (replicate (ncols a) (Finite 0)) (data a))"
    by (rule list_all_foldl_map2_fadd)
  then show ?thesis by (simp add: np_sum_def is_float64_fadd)
qed

lemma length_np_mean: "wf_ndarray a \<Longrightarrow> length (np_mean a) = ncols a"
  by (simp add: np_mean_def length_np_sum)

lemma nth_np_mean:
  "wf_ndarray a \<Longrightarrow> j < ncols a \<Longrightarrow> np_mean a ! j = spec_column_mean (ncols a) (data a) j"
  by (simp add: np_mean_def length_np_sum nth_np_sum spec_column_mean_def)

lemma float64_np_mean: "list_all is_float64 (np_mean a)"
  by (simp add: np_mean_def list_all_iff is_float64_fdiv)

lemma np_mean_eq_fdiv_np_sum:
  "np_mean a = map (\<lambda>s. fdiv s (of_count (length (data a)))) (np_sum a)"
  by (simp add: np_mean_def)

lemma zeros_fadd:
  "length v = c \<Longrightarrow> map2 fadd (replicate c (Finite 0)) v = map (fadd (Finite 0)) v"
  by (auto intro!: nth_equalityI)

subsection \<open>the selections are well-formed\<close>

lemma wf_selection:
  "wf_ndarray vals \<Longrightarrow> wf_ndarray \<lparr>ncols = ncols vals, data = rows_of_structure smp (data vals) s\<rparr>"
  using set_rows_of_structure[of smp "data vals" s] by (auto simp: wf_ndarray_def list_all_iff)

lemma float64_selection:
  "float64_ndarray vals \<Longrightarrow> float64_ndarray \<lparr>ncols = c, data = rows_of_structure smp (data vals) s\<rparr>"
  using set_rows_of_structure[of smp "data vals" s] by (auto simp: float64_ndarray_def list_all_iff)

subsection \<open>the helpers in closed form\<close>

text \<open>
  Row \<open>i\<close> of the output is the row of zeros of \<^verbatim>\<open>np.zeros\<close> plus the reduction of the
  rows of the \<open>i\<close>-th smallest structure index.
\<close>

lemma average_over_structures_closed:
  assumes "length (samples_structure d) = length (data (block_values d))"
    and "wf_ndarray (block_values d)"
  shows "average_over_structures d =
    Inr \<lparr>ncols = ncols (block_values d),
         data = map (\<lambda>s. map (fadd (Finite 0)) (np_mean \<lparr>ncols = ncols (block_values d),
                      data = rows_of_structure (samples_structure d) (data (block_values d)) s\<rparr>))
                  (np_unique (samples_structure d))\<rparr>"
  by (simp add: average_over_structures_def Let_def structures_loop_zeros[OF assms(1)]
      zeros_fadd length_np_mean wf_selection[OF assms(2)])

lemma sum_over_structures_closed:
  assumes "length (samples_structure d) = length (data (block_values d))"
    and "wf_ndarray (block_values d)"
  shows "sum_over_structures d =
    Inr \<lparr>ncols = ncols (block_values d),
         data = map (\<lambda>s. map (fadd (Finite 0)) (np_sum \<lparr>ncols = ncols (block_values d),
                      data = rows_of_structure (samples_structure d) (data (block_values d)) s\<rparr>))
                  (np_unique (samples_structure d))\<rparr>"
  by (simp add: sum_over_structures_def Let_def structures_loop_zeros[OF assms(1)]
      zeros_fadd length_np_sum wf_selection[OF assms(2)])

subsection \<open>the shape of the output, and what the reduction is applied to\<close>

lemma structures_loop_shape:
  assumes "length smp = length (data vals)"
    and "\<And>s. length (red \<lparr>ncols = ncols vals, data = rows_of_structure smp (data vals) s\<rparr>) = c"
  shows "\<exists>out. structures_loop red smp vals (List.enumerate 0 us) (np_zeros (length us) c) = Inr out
           \<and> length (data out) = length us \<and> ncols out = c \<and> wf_ndarray out"
  by (simp add: structures_loop_zeros[OF assms(1)] wf_ndarray_def list_all_iff assms(2))


subsection \<open>one row per structure\<close>

lemma rows_of_structure_distinct:
  "length smp = length rows \<Longrightarrow> distinct smp \<Longrightarrow> (s, r) \<in> set (zip smp rows) \<Longrightarrow>
   rows_of_structure smp rows s = [r]"
proof (induction smp rows rule: list_induct2)
  case Nil
  then show ?case by simp
next
  case (Cons x xs y ys)
  show ?case
  proof (cases "x = s")
    case True
    then have "s \<notin> set xs" using Cons.prems(1) by simp
    then have none: "filter (\<lambda>kr. fst kr = s) (zip xs ys) = []"
      by (auto simp: filter_empty_conv dest: set_zip_leftD)
    have "(s, r) \<notin> set (zip xs ys)" using \<open>s \<notin> set xs\<close> by (auto dest: set_zip_leftD)
    then have "r = y" using Cons.prems(2) True by simp
    then show ?thesis using True none by (simp add: rows_of_structure_def)
  next
    case False
    then have "(s, r) \<in> set (zip xs ys)" using Cons.prems(2) by auto
    then have "rows_of_structure xs ys s = [r]" using Cons.IH Cons.prems(1) by simp
    then show ?thesis using False by (simp add: rows_of_structure_def)
  qed
qed

lemma np_sum_single:
  assumes "list_all is_float64 r" and "length r = c"
  shows "np_sum \<lparr>ncols = c, data = [r]\<rparr> = map drop_zero_sign r"
proof (cases "c = 1")
  case True
  then obtain x where r: "r = [x]" using assms(2) by (cases r) auto
  have x: "is_float64 x" using assms(1) r by simp
  show ?thesis
    using True by (simp add: np_sum_def r pairwise_sum_small fadd_zero_left[OF x] fadd_zero_drop[OF x])
next
  case False
  have "map2 fadd (replicate c (Finite 0)) r = map (fadd (Finite 0)) r"
    using assms(2) by (rule zeros_fadd)
  also have "\<dots> = map drop_zero_sign r"
    using assms(1) by (simp add: list_all_iff fadd_zero_left)
  finally show ?thesis using False by (simp add: np_sum_def)
qed

lemma np_mean_single:
  assumes "list_all is_float64 r" and "length r = c"
  shows "np_mean \<lparr>ncols = c, data = [r]\<rparr> = map drop_zero_sign r"
  using assms(1)
  by (simp add: np_mean_def np_sum_single[OF assms] of_count_one fdiv_one list_all_iff
      is_float64_drop_zero_sign)

lemma sort_map_fst: "sort (map fst zs) = map fst (sort_key fst zs)"
  by (rule properties_for_sort) simp_all

lemma map_sorted_rows:
  assumes "length smp = length rows" and "distinct smp"
    and "\<And>s r. (s, r) \<in> set (zip smp rows) \<Longrightarrow> g s = f r"
  shows "map g (sort smp) = map f (map snd (sort_key fst (zip smp rows)))"
proof -
  have "sort smp = map fst (sort_key fst (zip smp rows))"
    using sort_map_fst[of "zip smp rows"] assms(1) by simp
  then have "map g (sort smp) = map (\<lambda>z. g (fst z)) (sort_key fst (zip smp rows))"
    by (simp add: comp_def)
  also have "\<dots> = map (\<lambda>z. f (snd z)) (sort_key fst (zip smp rows))"
    by (rule map_cong[OF refl]) (use assms(3) in auto)
  finally show ?thesis by (simp add: comp_def)
qed

text \<open>
  A table with one row per structure index: every group is one row, its sum and its
  mean are the row with \<open>-0.0\<close> turned into \<open>+0.0\<close>, and so is the output row.
\<close>

lemma single_row_groups:
  assumes "distinct (samples_structure d)"
    and "length (samples_structure d) = length (data (block_values d))"
    and "wf_ndarray (block_values d)" and "float64_ndarray (block_values d)"
  shows "average_over_structures d =
           Inr \<lparr>ncols = ncols (block_values d),
                data = map (map drop_zero_sign)
                  (map snd (sort_key fst (zip (samples_structure d) (data (block_values d)))))\<rparr>"
    and "sum_over_structures d =
           Inr \<lparr>ncols = ncols (block_values d),
                data = map (map drop_zero_sign)
                  (map snd (sort_key fst (zip (samples_structure d) (data (block_values d)))))\<rparr>"
proof -
  let ?smp = "samples_structure d" and ?rows = "data (block_values d)" and ?c = "ncols (block_values d)"
  have valid: "list_all is_float64 r" and len: "length r = ?c"
    if "(s, r) \<in> set (zip ?smp ?rows)" for s r
    using assms(3,4) set_zip_rightD[OF that]
    by (simp_all add: float64_ndarray_def wf_ndarray_def list_all_iff)
  have again: "map (fadd (Finite 0)) (map drop_zero_sign r) = map drop_zero_sign r"
    if "(s, r) \<in> set (zip ?smp ?rows)" for s r
    using valid[OF that] by (simp add: list_all_iff fadd_zero_drop)
  have m: "map (fadd (Finite 0)) (np_mean \<lparr>ncols = ?c, data = rows_of_structure ?smp ?rows s\<rparr>)
             = map drop_zero_sign r"
    if "(s, r) \<in> set (zip ?smp ?rows)" for s r
    using rows_of_structure_distinct[OF assms(2,1) that] again[OF that]
    by (simp add: np_mean_single[OF valid[OF that] len[OF that]])
  have s: "map (fadd (Finite 0)) (np_sum \<lparr>ncols = ?c, data = rows_of_structure ?smp ?rows s\<rparr>)
             = map drop_zero_sign r"
    if "(s, r) \<in> set (zip ?smp ?rows)" for s r
    using rows_of_structure_distinct[OF assms(2,1) that] again[OF that]
    by (simp add: np_sum_single[OF valid[OF that] len[OF that]])
  show "average_over_structures d =
           Inr \<lparr>ncols = ?c, data = map (map drop_zero_sign) (map snd (sort_key fst (zip ?smp ?rows)))\<rparr>"
    unfolding average_over_structures_closed[OF assms(2,3)] np_unique_distinct[OF assms(1)]
    using map_sorted_rows[OF assms(2,1), of
        "\<lambda>s. map (fadd (Finite 0)) (np_mean \<lparr>ncols = ?c, data = rows_of_structure ?smp ?rows s\<rparr>)"
        "map drop_zero_sign"] m
    by simp
  show "sum_over_structures d =
           Inr \<lparr>ncols = ?c, data = map (map drop_zero_sign) (map snd (sort_key fst (zip ?smp ?rows)))\<rparr>"
    unfolding sum_over_structures_closed[OF assms(2,3)] np_unique_distinct[OF assms(1)]
    using map_sorted_rows[OF assms(2,1), of
        "\<lambda>s. map (fadd (Finite 0)) (np_sum \<lparr>ncols = ?c, data = rows_of_structure ?smp ?rows s\<rparr>)"
        "map drop_zero_sign"] s
    by simp
qed

lemma sorted_table_rows:
  assumes "sorted smp" and "length smp = length rows"
  shows "map snd (sort_key fst (zip smp rows)) = rows"
proof -
  have "sorted (map fst (zip smp rows))" using assms by simp
  then have "sort_key fst (zip smp rows) = zip smp rows" by (rule sort_key_id_if_sorted)
  then show ?thesis using assms(2) by simp
qed

lemma drop_zero_sign_rows:
  assumes "\<forall>r \<in> set rows. NZero \<notin> set r"
  shows "map (map drop_zero_sign) rows = rows"
proof -
  have row: "map drop_zero_sign r = r" if "r \<in> set rows" for r
    using assms that by (intro map_idI drop_zero_sign_id) auto
  show ?thesis by (rule map_idI) (rule row)
qed

text \<open>
  Aggregating twice: the output of a helper has no entry \<open>-0.0\<close>; with the distinct
  structure indices as its samples it is a table with one row per index, and both
  helpers return it as it is.
\<close>

lemma fadd_zero_not_NZero: "is_float64 x \<Longrightarrow> fadd (Finite 0) x \<noteq> NZero"
  by (simp add: fadd_zero_left drop_zero_sign_def)

lemma aggregation_idempotent:
  assumes "length (samples_structure d) = length (data (block_values d))"
    and "wf_ndarray (block_values d)"
    and "average_over_structures d = Inr out \<or> sum_over_structures d = Inr out"
  shows "average_over_structures
           \<lparr>samples_structure = np_unique (samples_structure d), block_values = out\<rparr> = Inr out"
    and "sum_over_structures
           \<lparr>samples_structure = np_unique (samples_structure d), block_values = out\<rparr> = Inr out"
proof -
  let ?us = "np_unique (samples_structure d)"
  let ?d2 = "\<lparr>samples_structure = ?us, block_values = out\<rparr>"
  have sel: "wf_ndarray \<lparr>ncols = ncols (block_values d),
      data = rows_of_structure (samples_structure d) (data (block_values d)) s\<rparr>" for s
    using wf_selection[OF assms(2)] .
  have lm: "length (np_mean \<lparr>ncols = ncols (block_values d),
      data = rows_of_structure (samples_structure d) (data (block_values d)) s\<rparr>)
        = ncols (block_values d)" for s
    using length_np_mean[OF sel] by simp
  have ls: "length (np_sum \<lparr>ncols = ncols (block_values d),
      data = rows_of_structure (samples_structure d) (data (block_values d)) s\<rparr>)
        = ncols (block_values d)" for s
    using length_np_sum[OF sel] by simp
  have fm: "\<forall>x \<in> set (np_mean a). is_float64 x" for a
    using float64_np_mean[of a] by (simp add: list_all_iff)
  have fs: "\<forall>x \<in> set (np_sum a). is_float64 x" for a
    using float64_np_sum[of a] by (simp add: list_all_iff)
  have out: "length (data out) = length ?us \<and> wf_ndarray out \<and> float64_ndarray out
      \<and> (\<forall>r \<in> set (data out). NZero \<notin> set r)"
    using assms(3)
    unfolding average_over_structures_closed[OF assms(1,2)] sum_over_structures_closed[OF assms(1,2)]
    by (auto simp: wf_ndarray_def float64_ndarray_def list_all_iff lm ls fm fs
        is_float64_fadd fadd_zero_not_NZero fadd_zero_not_NZero[THEN not_sym])
  have h: "distinct (samples_structure ?d2)"
    "length (samples_structure ?d2) = length (data (block_values ?d2))"
    "wf_ndarray (block_values ?d2)" "float64_ndarray (block_values ?d2)"
    using out distinct_np_unique[of "samples_structure d"] by simp_all
  have srt: "sorted ?us"
    using sorted_np_unique[of "samples_structure d"] by (simp add: strict_sorted_iff)
  have rows: "map (map drop_zero_sign) (map snd (sort_key fst (zip ?us (data out)))) = data out"
    using out by (simp add: sorted_table_rows[OF srt] drop_zero_sign_rows)
  show "average_over_structures ?d2 = Inr out"
    using single_row_groups(1)[OF h] rows by simp
  show "sum_over_structures ?d2 = Inr out"
    using single_row_groups(2)[OF h] rows by simp
qed

subsection \<open>permuted rows\<close>

lemma mset_map_nth_perm:
  assumes "mset p = mset [0..<length xs]"
  shows "mset (map (\<lambda>k. xs ! k) p) = mset xs"
proof -
  have "mset (map (\<lambda>k. xs ! k) p) = image_mset (\<lambda>k. xs ! k) (mset p)" by simp
  also have "\<dots> = image_mset (\<lambda>k. xs ! k) (mset [0..<length xs])" by (simp only: assms)
  also have "\<dots> = mset (map (\<lambda>k. xs ! k) [0..<length xs])" by simp
  also have "\<dots> = mset xs" by (simp only: map_nth)
  finally show ?thesis .
qed

lemma zip_as_map_nth:
  "length xs = length ys \<Longrightarrow> zip xs ys = map (\<lambda>k. (xs ! k, ys ! k)) [0..<length xs]"
  by (intro nth_equalityI) simp_all

lemma mset_zip_perm:
  assumes "length xs = length ys" and "mset p = mset [0..<length xs]"
  shows "mset (zip (map (\<lambda>k. xs ! k) p) (map (\<lambda>k. ys ! k) p)) = mset (zip xs ys)"
proof -
  have "zip (map (\<lambda>k. xs ! k) p) (map (\<lambda>k. ys ! k) p) = map (\<lambda>k. (xs ! k, ys ! k)) p"
    by (induction p) simp_all
  then have "mset (zip (map (\<lambda>k. xs ! k) p) (map (\<lambda>k. ys ! k) p))
               = image_mset (\<lambda>k. (xs ! k, ys ! k)) (mset p)"
    by simp
  also have "\<dots> = image_mset (\<lambda>k. (xs ! k, ys ! k)) (mset [0..<length xs])"
    by (simp only: assms(2))
  also have "\<dots> = mset (map (\<lambda>k. (xs ! k, ys ! k)) [0..<length xs])" by simp
  also have "\<dots> = mset (zip xs ys)" by (simp only: zip_as_map_nth[OF assms(1)])
  finally show ?thesis .
qed

lemma mset_rows_of_structure:
  "mset (rows_of_structure smp rows s)
     = image_mset snd (filter_mset (\<lambda>kr. fst kr = s) (mset (zip smp rows)))"
  by (simp add: rows_of_structure_def)

lemma permute_rows_simps [simp]:
  "samples_structure (permute_rows p d) = map (\<lambda>k. samples_structure d ! k) p"
  "data (block_values (permute_rows p d)) = map (\<lambda>k. data (block_values d) ! k) p"
  "ncols (block_values (permute_rows p d)) = ncols (block_values d)"
  by (simp_all add: permute_rows_def)

lemma permute_rows_group_mset:
  assumes "length (samples_structure d) = length (data (block_values d))"
    and "mset p = mset [0..<length (samples_structure d)]"
  shows "mset (data (structure_selection (permute_rows p d) s))
           = mset (data (structure_selection d s))"
  by (simp add: structure_selection_def mset_rows_of_structure mset_zip_perm[OF assms])

lemma permute_rows_np_unique:
  assumes "mset p = mset [0..<length (samples_structure d)]"
  shows "np_unique (samples_structure (permute_rows p d)) = np_unique (samples_structure d)"
  by (simp add: np_unique_mset[OF mset_map_nth_perm[OF assms]])

lemma permute_rows_ok:
  assumes "length (samples_structure d) = length (data (block_values d))"
    and "mset p = mset [0..<length (samples_structure d)]"
  shows "wf_ndarray (block_values d) \<Longrightarrow> wf_ndarray (block_values (permute_rows p d))"
    and "float64_ndarray (block_values d) \<Longrightarrow> float64_ndarray (block_values (permute_rows p d))"
proof -
  have "mset p = mset [0..<length (data (block_values d))]" using assms by simp
  from mset_map_nth_perm[OF this]
  have "set (map (\<lambda>k. data (block_values d) ! k) p) = set (data (block_values d))"
    by (rule mset_eq_setD)
  then have s: "set (data (block_values (permute_rows p d))) = set (data (block_values d))"
    by simp
  show "wf_ndarray (block_values d) \<Longrightarrow> wf_ndarray (block_values (permute_rows p d))"
    unfolding wf_ndarray_def list_all_iff s by simp
  show "float64_ndarray (block_values d) \<Longrightarrow> float64_ndarray (block_values (permute_rows p d))"
    unfolding float64_ndarray_def list_all_iff s by simp
qed

text \<open>
  A permutation keeps the order of the rows inside every structure when, for every
  structure index, the positions of its rows occur in the permutation in ascending
  order. The rows of every structure then come out as before.
\<close>

lemma rows_of_structure_perm:
  "rows_of_structure (map (\<lambda>k. xs ! k) p) (map (\<lambda>k. ys ! k) p) s
     = map (\<lambda>k. ys ! k) (filter (\<lambda>k. xs ! k = s) p)"
  by (induction p) (simp_all add: rows_of_structure_def)

lemma rows_of_structure_upt:
  assumes "length xs = length ys"
  shows "rows_of_structure xs ys s = map (\<lambda>k. ys ! k) (filter (\<lambda>k. xs ! k = s) [0..<length xs])"
proof -
  have x: "map (\<lambda>k. xs ! k) [0..<length xs] = xs" by (rule map_nth)
  have y: "map (\<lambda>k. ys ! k) [0..<length xs] = ys" unfolding assms by (rule map_nth)
  have "rows_of_structure xs ys s
      = rows_of_structure (map (\<lambda>k. xs ! k) [0..<length xs]) (map (\<lambda>k. ys ! k) [0..<length xs]) s"
    by (simp only: x y)
  then show ?thesis by (simp only: rows_of_structure_perm)
qed

lemma order_keeping_selection:
  assumes "length (samples_structure d) = length (data (block_values d))"
    and "filter (\<lambda>k. samples_structure d ! k = s) p
           = filter (\<lambda>k. samples_structure d ! k = s) [0..<length (samples_structure d)]"
  shows "structure_selection (permute_rows p d) s = structure_selection d s"
  by (simp add: structure_selection_def rows_of_structure_perm assms(2)
      rows_of_structure_upt[OF assms(1)])

subsection \<open>the helpers by structure\<close>

lemma average_over_structures_by_structure:
  assumes "length (samples_structure d) = length (data (block_values d))"
    and "wf_ndarray (block_values d)"
  shows "average_over_structures d =
    Inr \<lparr>ncols = ncols (block_values d),
         data = map (\<lambda>s. map (fadd (Finite 0)) (np_mean (structure_selection d s)))
                  (np_unique (samples_structure d))\<rparr>"
  unfolding structure_selection_def by (rule average_over_structures_closed[OF assms])

lemma sum_over_structures_by_structure:
  assumes "length (samples_structure d) = length (data (block_values d))"
    and "wf_ndarray (block_values d)"
  shows "sum_over_structures d =
    Inr \<lparr>ncols = ncols (block_values d),
         data = map (\<lambda>s. map (fadd (Finite 0)) (np_sum (structure_selection d s)))
                  (np_unique (samples_structure d))\<rparr>"
  unfolding structure_selection_def by (rule sum_over_structures_closed[OF assms])

lemma wf_structure_selection: "wf_ndarray (block_values d) \<Longrightarrow> wf_ndarray (structure_selection d s)"
  unfolding structure_selection_def by (rule wf_selection)

lemma ncols_structure_selection [simp]: "ncols (structure_selection d s) = ncols (block_values d)"
  by (simp add: structure_selection_def)

lemma length_structure_selection:
  "length (samples_structure d) = length (data (block_values d)) \<Longrightarrow>
   length (data (structure_selection d s)) = count_list (samples_structure d) s"
  by (simp add: structure_selection_def length_rows_of_structure)

text \<open>
  The rows written to the output, with the addition to the zeros of \<^verbatim>\<open>np.zeros\<close> read as
  \<open>drop_zero_sign\<close>.
\<close>

lemma map_fadd_zero_float64:
  "list_all is_float64 v \<Longrightarrow> map (fadd (Finite 0)) v = map drop_zero_sign v"
  by (simp add: list_all_iff fadd_zero_left)

lemma written_sum_row: "map (fadd (Finite 0)) (np_sum a) = map drop_zero_sign (np_sum a)"
  by (rule map_fadd_zero_float64) (rule float64_np_sum)

lemma written_mean_row:
  "map (fadd (Finite 0)) (np_mean a) =
   map (\<lambda>x. drop_zero_sign (fdiv x (of_count (length (data a))))) (map drop_zero_sign (np_sum a))"
proof -
  have "fadd (Finite 0) (fdiv x y) = drop_zero_sign (fdiv (drop_zero_sign x) y)" for x y
    using fadd_zero_fdiv_drop[of x y] fadd_zero_left[OF is_float64_fdiv, of "drop_zero_sign x" y]
    by simp
  then show ?thesis by (simp add: np_mean_eq_fdiv_np_sum)
qed

lemma written_mean_row_plain:
  "map (fadd (Finite 0)) (np_mean a) = map drop_zero_sign (np_mean a)"
  by (rule map_fadd_zero_float64) (simp add: np_mean_def list_all_iff is_float64_fdiv)

subsection \<open>the loop on the store\<close>

lemma structures_loop_store_sim:
  assumes "po \<noteq> pv"
  shows "po < length (float_arrays h) \<Longrightarrow>
    \<exists>a. structures_loop_store red ps pv po en h =
          ((case structures_loop red (int_arrays h ! ps) (float_arrays h ! pv) en (float_arrays h ! po) of
              Inl e \<Rightarrow> Some e | Inr _ \<Rightarrow> None),
           h\<lparr>float_arrays := (float_arrays h)[po := a]\<rparr>)
      \<and> (\<forall>out. structures_loop red (int_arrays h ! ps) (float_arrays h ! pv) en (float_arrays h ! po)
                  = Inr out \<longrightarrow> a = out)"
proof (induction en arbitrary: h)
  case Nil
  have "h\<lparr>float_arrays := (float_arrays h)[po := float_arrays h ! po]\<rparr> = h" by simp
  then show ?case by (intro exI[of _ "float_arrays h ! po"]) simp
next
  case (Cons x en)
  obtain i s where x: "x = (i, s)" by (cases x)
  show ?case
  proof (cases "bool_index (float_arrays h ! pv) (eq_mask (int_arrays h ! ps) s)")
    case (Inl e)
    have "h\<lparr>float_arrays := (float_arrays h)[po := float_arrays h ! po]\<rparr> = h" by simp
    then show ?thesis using Inl by (intro exI[of _ "float_arrays h ! po"]) (simp add: x)
  next
    case (Inr sel)
    let ?h1 = "h\<lparr>float_arrays := (float_arrays h)[po := iadd_row (float_arrays h ! po) i (red sel)]\<rparr>"
    have po1: "po < length (float_arrays ?h1)" using Cons.prems by simp
    have rd: "int_arrays ?h1 ! ps = int_arrays h ! ps"
      "float_arrays ?h1 ! pv = float_arrays h ! pv"
      "float_arrays ?h1 ! po = iadd_row (float_arrays h ! po) i (red sel)"
      using Cons.prems assms by simp_all
    from Cons.IH[OF po1] obtain a where
      a: "structures_loop_store red ps pv po en ?h1 =
          ((case structures_loop red (int_arrays ?h1 ! ps) (float_arrays ?h1 ! pv) en (float_arrays ?h1 ! po) of
              Inl e \<Rightarrow> Some e | Inr _ \<Rightarrow> None),
           ?h1\<lparr>float_arrays := (float_arrays ?h1)[po := a]\<rparr>)"
      and b: "\<forall>out. structures_loop red (int_arrays ?h1 ! ps) (float_arrays ?h1 ! pv) en (float_arrays ?h1 ! po)
                  = Inr out \<longrightarrow> a = out"
      by blast
    have upd: "?h1\<lparr>float_arrays := (float_arrays ?h1)[po := a]\<rparr>
                 = h\<lparr>float_arrays := (float_arrays h)[po := a]\<rparr>"
      by simp
    show ?thesis
      using a b unfolding rd upd by (intro exI[of _ a]) (simp add: x Inr)
  qed
qed

lemma over_structures_store_sim:
  assumes "pv < length (float_arrays h)"
  shows "\<exists>a. over_structures_store red ps pv h =
          (map_sum id (\<lambda>_. length (float_arrays h))
             (structures_loop red (int_arrays h ! ps) (float_arrays h ! pv)
                (List.enumerate 0 (np_unique (int_arrays h ! ps)))
                (np_zeros (length (np_unique (int_arrays h ! ps))) (ncols (float_arrays h ! pv)))),
           h\<lparr>float_arrays := float_arrays h @ [a]\<rparr>)
      \<and> (\<forall>out. structures_loop red (int_arrays h ! ps) (float_arrays h ! pv)
                (List.enumerate 0 (np_unique (int_arrays h ! ps)))
                (np_zeros (length (np_unique (int_arrays h ! ps))) (ncols (float_arrays h ! pv)))
              = Inr out \<longrightarrow> a = out)"
proof -
  let ?z = "np_zeros (length (np_unique (int_arrays h ! ps))) (ncols (float_arrays h ! pv))"
  let ?po = "length (float_arrays h)"
  let ?h1 = "h\<lparr>float_arrays := float_arrays h @ [?z]\<rparr>"
  let ?en = "List.enumerate 0 (np_unique (int_arrays h ! ps))"
  have ne: "?po \<noteq> pv" using assms by simp
  have po1: "?po < length (float_arrays ?h1)" by simp
  have rd: "int_arrays ?h1 ! ps = int_arrays h ! ps"
      "float_arrays ?h1 ! pv = float_arrays h ! pv"
      "float_arrays ?h1 ! ?po = ?z"
    using assms by (simp_all add: nth_append)
  from structures_loop_store_sim[OF ne po1, of red ps ?en] obtain a where
    a: "structures_loop_store red ps pv ?po ?en ?h1 =
          ((case structures_loop red (int_arrays ?h1 ! ps) (float_arrays ?h1 ! pv) ?en (float_arrays ?h1 ! ?po) of
              Inl e \<Rightarrow> Some e | Inr _ \<Rightarrow> None),
           ?h1\<lparr>float_arrays := (float_arrays ?h1)[?po := a]\<rparr>)"
    and b: "\<forall>out. structures_loop red (int_arrays ?h1 ! ps) (float_arrays ?h1 ! pv) ?en (float_arrays ?h1 ! ?po)
                  = Inr out \<longrightarrow> a = out"
    by blast
  have upd: "?h1\<lparr>float_arrays := (float_arrays ?h1)[?po := a]\<rparr>
               = h\<lparr>float_arrays := float_arrays h @ [a]\<rparr>"
    by simp
  show ?thesis
    using a b unfolding rd upd
    by (intro exI[of _ a]) (auto simp: over_structures_store_def Let_def split: sum.splits)
qed

section \<open>Concrete runs\<close>

lemma example_values_ok: "wf_ndarray example_values" "float64_ndarray example_values"
  by (simp_all add: wf_ndarray_def float64_ndarray_def is_float64_numeral is_float64_one)

lemmas run_simps =
  np_unique_def np_zeros_def eq_mask_def bool_index_def np_mean_def np_sum_def iadd_row_def
  pairwise_sum_small fadd_Finite fdiv_Finite fdiv_zero_Finite fmul_Finite
  round64_numeral round64_zero round64_one of_count_small numeral_2_eq_2

lemma example_descriptor_runs:
  "average_over_structures example_descriptor =
     Inr \<lparr>ncols = 2, data = [[Finite 3, Finite 3], [Finite 3, Finite 3]]\<rparr>"
  "sum_over_structures example_descriptor =
     Inr \<lparr>ncols = 2, data = [[Finite 3, Finite 3], [Finite 6, Finite 6]]\<rparr>"
  by (simp_all add: average_over_structures_def sum_over_structures_def run_simps)

lemma round64_large:
  "round64 9007199254740993 = Finite 9007199254740992"
  "round64 9007199254740994 = Finite 9007199254740994"
  "round64 (9007199254740992 / 3) = Finite (6004799503160661 / 2)"
  "round64 (9007199254740994 / 3) = Finite (6004799503160663 / 2)"
proof -
  show "round64 9007199254740993 = Finite 9007199254740992"
    by (rule round64_eval[where k = 53 and e = 1 and n = 4503599627370496])
      (simp_all add: round_half_even_def Let_def floor_numeral_div)
  show "round64 9007199254740994 = Finite 9007199254740994"
    by (rule round64_eval[where k = 53 and e = 1 and n = 4503599627370497])
      (simp_all add: round_half_even_def Let_def floor_numeral_div)
  show "round64 (9007199254740992 / 3) = Finite (6004799503160661 / 2)"
    by (rule round64_eval[where k = 51 and e = "- 1" and n = 6004799503160661])
      (simp_all add: round_half_even_def Let_def floor_numeral_div)
  show "round64 (9007199254740994 / 3) = Finite (6004799503160663 / 2)"
    by (rule round64_eval[where k = 51 and e = "- 1" and n = 6004799503160663])
      (simp_all add: round_half_even_def Let_def floor_numeral_div)
qed

lemma round64_seven:
  "round64 (29 / 7) = Finite (4664442471205157 / 1125899906842624)"
  "round64 (32651097298436099 / 1125899906842624) = Finite (8162774324609025 / 281474976710656)"
proof -
  show "round64 (29 / 7) = Finite (4664442471205157 / 1125899906842624)"
    by (rule round64_eval[where k = 2 and e = "- 50" and n = 4664442471205157])
      (simp_all add: round_half_even_def Let_def floor_numeral_div power_int_minus)
  show "round64 (32651097298436099 / 1125899906842624) = Finite (8162774324609025 / 281474976710656)"
    by (rule round64_eval[where k = 4 and e = "- 48" and n = 8162774324609025])
      (simp_all add: round_half_even_def Let_def floor_numeral_div power_int_minus)
qed

lemmas round64_large_fixed =
  round64_large(3)[THEN round64_idem] round64_large(4)[THEN round64_idem]
  round64_seven(1)[THEN round64_idem]

lemma example_large_runs:
  "permute_rows [1, 2, 0] example_large =
     \<lparr>samples_structure = [0, 0, 0],
      block_values = \<lparr>ncols = 2,
        data = [[Finite 1, Finite 0], [Finite 1, Finite 0], [Finite (2 ^ 53), Finite 0]]\<rparr>\<rparr>"
  "sum_over_structures example_large =
     Inr \<lparr>ncols = 2, data = [[Finite (2 ^ 53), Finite 0]]\<rparr>"
  "sum_over_structures (permute_rows [1, 2, 0] example_large) =
     Inr \<lparr>ncols = 2, data = [[Finite (2 ^ 53 + 2), Finite 0]]\<rparr>"
  "average_over_structures example_large =
     Inr \<lparr>ncols = 2, data = [[Finite (6004799503160661 / 2), Finite 0]]\<rparr>"
  "average_over_structures (permute_rows [1, 2, 0] example_large) =
     Inr \<lparr>ncols = 2, data = [[Finite (6004799503160663 / 2), Finite 0]]\<rparr>"
  by (simp_all add: permute_rows_def average_over_structures_def sum_over_structures_def
      run_simps round64_large round64_large_fixed)

lemma example_seven_runs:
  "sum_over_structures example_seven = Inr \<lparr>ncols = 1, data = [[Finite 29]]\<rparr>"
  "average_over_structures example_seven =
     Inr \<lparr>ncols = 1, data = [[Finite (4664442471205157 / 2 ^ 50)]]\<rparr>"
  "fmul (Finite (4664442471205157 / 2 ^ 50)) (of_count 7) = Finite (29 + 1 / 2 ^ 48)"
  by (simp_all add: average_over_structures_def sum_over_structures_def
      run_simps round64_seven round64_large_fixed)

lemma example_negzero_runs:
  "average_over_structures example_negzero =
     Inr \<lparr>ncols = 2, data = [[Finite 3, Finite 3], [Finite 0, Finite 1]]\<rparr>"
  "sum_over_structures example_negzero =
     Inr \<lparr>ncols = 2, data = [[Finite 3, Finite 3], [Finite 0, Finite 1]]\<rparr>"
  by (simp_all add: average_over_structures_def sum_over_structures_def run_simps
      fadd_def fdiv_def signed_zero_def)

lemma round64_column:
  "round64 9007199254740998 = Finite 9007199254740998"
  "round64 (4503599627370499 / 4) = Finite (4503599627370499 / 4)"
proof -
  show "round64 9007199254740998 = Finite 9007199254740998"
    by (rule round64_eval[where k = 53 and e = 1 and n = 4503599627370499])
      (simp_all add: round_half_even_def Let_def floor_numeral_div)
  show "round64 (4503599627370499 / 4) = Finite (4503599627370499 / 4)"
    by (rule round64_eval[where k = 50 and e = "- 2" and n = 4503599627370499])
      (simp_all add: round_half_even_def Let_def floor_numeral_div power_int_minus)
qed

lemma pairwise_sum_column:
  "pairwise_sum [Finite (2 ^ 53), Finite 1, Finite 1, Finite 1, Finite 1, Finite 1, Finite 1,
                 Finite 1] = Finite (2 ^ 53 + 6)"
  by (simp add: pairwise_sum_block fadd_Finite round64_numeral round64_large round64_column)

lemma example_column_runs:
  "sum_over_structures example_column = Inr \<lparr>ncols = 1, data = [[Finite (2 ^ 53 + 6)]]\<rparr>"
  "average_over_structures example_column =
     Inr \<lparr>ncols = 1, data = [[Finite ((2 ^ 53 + 6) / 8)]]\<rparr>"
  "foldl fadd (Finite 0) [Finite (2 ^ 53), Finite 1, Finite 1, Finite 1, Finite 1, Finite 1,
                          Finite 1, Finite 1] = Finite (2 ^ 53)"
  by (simp_all add: average_over_structures_def sum_over_structures_def np_unique_def
      np_zeros_def eq_mask_def bool_index_def np_mean_def np_sum_def iadd_row_def
      pairwise_sum_column[simplified] fadd_Finite fdiv_Finite round64_numeral round64_large
      round64_column of_count_exact)

section \<open>The claims\<close>

text \<open>
  Claim C1. One structure holding the rows \<open>[1,1]\<close>, \<open>[3,3]\<close>, \<open>[5,5]\<close>: the mean
  helper returns the single row \<open>[3,3]\<close> and the sum helper the single row \<open>[9,9]\<close>,
  whatever the structure's index is.
\<close>

theorem single_structure_example:
  "average_over_structures \<lparr>samples_structure = [s, s, s], block_values = example_values\<rparr>
     = Inr \<lparr>ncols = 2, data = [[Finite 3, Finite 3]]\<rparr>
 \<and> sum_over_structures \<lparr>samples_structure = [s, s, s], block_values = example_values\<rparr>
     = Inr \<lparr>ncols = 2, data = [[Finite 9, Finite 9]]\<rparr>"
  by (simp add: average_over_structures_def sum_over_structures_def run_simps)

text \<open>
  Claim C2. When the samples and the values have the same number of rows (and the values
  are a rectangular array), each helper returns an array with one row per distinct
  structure index and with the column count of the values; every row has that many
  entries.
\<close>

theorem output_shape:
  assumes "length (samples_structure d) = length (data (block_values d))"
    and "wf_ndarray (block_values d)"
  shows "(\<exists>out. average_over_structures d = Inr out
            \<and> length (data out) = card (set (samples_structure d))
            \<and> ncols out = ncols (block_values d) \<and> wf_ndarray out)
       \<and> (\<exists>out. sum_over_structures d = Inr out
            \<and> length (data out) = card (set (samples_structure d))
            \<and> ncols out = ncols (block_values d) \<and> wf_ndarray out)"
proof
  show "\<exists>out. average_over_structures d = Inr out
            \<and> length (data out) = card (set (samples_structure d))
            \<and> ncols out = ncols (block_values d) \<and> wf_ndarray out"
    unfolding average_over_structures_def Let_def length_np_unique[symmetric]
    by (rule structures_loop_shape[OF assms(1)]) (simp add: length_np_mean wf_selection[OF assms(2)])
  show "\<exists>out. sum_over_structures d = Inr out
            \<and> length (data out) = card (set (samples_structure d))
            \<and> ncols out = ncols (block_values d) \<and> wf_ndarray out"
    unfolding sum_over_structures_def Let_def length_np_unique[symmetric]
    by (rule structures_loop_shape[OF assms(1)]) (simp add: length_np_sum wf_selection[OF assms(2)])
qed

theorem output_shape_witness:
  "length (samples_structure example_descriptor) = length (data (block_values example_descriptor))
 \<and> wf_ndarray (block_values example_descriptor)
 \<and> card (set (samples_structure example_descriptor)) = 2
 \<and> (\<exists>out. average_over_structures example_descriptor = Inr out
        \<and> length (data out) = 2 \<and> ncols out = 2 \<and> wf_ndarray out)
 \<and> (\<exists>out. sum_over_structures example_descriptor = Inr out
        \<and> length (data out) = 2 \<and> ncols out = 2 \<and> wf_ndarray out)"
proof -
  have h1: "length (samples_structure example_descriptor)
              = length (data (block_values example_descriptor))"
    by simp
  have h2: "wf_ndarray (block_values example_descriptor)"
    by (simp add: example_values_ok)
  have "card (set [7, - 2, 7 :: int]) = length (remdups [7, - 2, 7 :: int])" by (rule card_set)
  then have c: "card (set (samples_structure example_descriptor)) = 2" by simp
  from output_shape[OF h1 h2] show ?thesis
    unfolding c using h1 h2 by simp
qed

text \<open>
  Claim C3, as amended. For samples and values of the same number of rows, the rows of
  either output follow the strictly ascending list of the distinct structure indices:
  row \<open>i\<close> is \<open>0.0\<close> plus the reduction of the rows of the \<open>i\<close>-th smallest index. After
  any permutation of the input rows the output has the same structure indices in the
  same order, and each of its rows is the reduction of the same rows of the input,
  possibly in another order. The output is identical to the output on the unpermuted
  input whenever the permutation keeps the order of the rows inside every structure
  (for every index, the positions of its rows occur in the permutation in ascending
  order; the rows selected for every structure are then the same).
  (In general it is not: binary64 addition is not associative, and the rows of a
  structure are added in the order of the input; see the counterexample below.)
\<close>

theorem order_and_permutation:
  assumes "length (samples_structure d) = length (data (block_values d))"
    and "wf_ndarray (block_values d)"
    and "mset p = mset [0..<length (samples_structure d)]"
  shows "sorted_wrt (<) (np_unique (samples_structure d))
       \<and> set (np_unique (samples_structure d)) = set (samples_structure d)
       \<and> average_over_structures d =
           Inr \<lparr>ncols = ncols (block_values d),
                data = map (\<lambda>s. map (fadd (Finite 0)) (np_mean (structure_selection d s)))
                         (np_unique (samples_structure d))\<rparr>
       \<and> sum_over_structures d =
           Inr \<lparr>ncols = ncols (block_values d),
                data = map (\<lambda>s. map (fadd (Finite 0)) (np_sum (structure_selection d s)))
                         (np_unique (samples_structure d))\<rparr>
       \<and> average_over_structures (permute_rows p d) =
           Inr \<lparr>ncols = ncols (block_values d),
                data = map (\<lambda>s. map (fadd (Finite 0))
                                (np_mean (structure_selection (permute_rows p d) s)))
                         (np_unique (samples_structure d))\<rparr>
       \<and> sum_over_structures (permute_rows p d) =
           Inr \<lparr>ncols = ncols (block_values d),
                data = map (\<lambda>s. map (fadd (Finite 0))
                                (np_sum (structure_selection (permute_rows p d) s)))
                         (np_unique (samples_structure d))\<rparr>
       \<and> (\<forall>s. mset (data (structure_selection (permute_rows p d) s))
                = mset (data (structure_selection d s)))
       \<and> ((\<forall>s. structure_selection (permute_rows p d) s = structure_selection d s) \<longrightarrow>
              average_over_structures (permute_rows p d) = average_over_structures d
            \<and> sum_over_structures (permute_rows p d) = sum_over_structures d)
       \<and> ((\<forall>s. filter (\<lambda>k. samples_structure d ! k = s) p
                  = filter (\<lambda>k. samples_structure d ! k = s)
                      [0..<length (samples_structure d)]) \<longrightarrow>
              average_over_structures (permute_rows p d) = average_over_structures d
            \<and> sum_over_structures (permute_rows p d) = sum_over_structures d)"
proof -
  let ?d' = "permute_rows p d"
  have len': "length (samples_structure ?d') = length (data (block_values ?d'))" by simp
  have wf': "wf_ndarray (block_values ?d')" using permute_rows_ok(1)[OF assms(1,3,2)] .
  have u: "np_unique (samples_structure ?d') = np_unique (samples_structure d)"
    using permute_rows_np_unique[OF assms(3)] .
  have a: "average_over_structures d =
           Inr \<lparr>ncols = ncols (block_values d),
                data = map (\<lambda>s. map (fadd (Finite 0)) (np_mean (structure_selection d s)))
                         (np_unique (samples_structure d))\<rparr>"
    by (rule average_over_structures_by_structure[OF assms(1,2)])
  have s: "sum_over_structures d =
           Inr \<lparr>ncols = ncols (block_values d),
                data = map (\<lambda>s. map (fadd (Finite 0)) (np_sum (structure_selection d s)))
                         (np_unique (samples_structure d))\<rparr>"
    by (rule sum_over_structures_by_structure[OF assms(1,2)])
  have a': "average_over_structures ?d' =
           Inr \<lparr>ncols = ncols (block_values d),
                data = map (\<lambda>s. map (fadd (Finite 0)) (np_mean (structure_selection ?d' s)))
                         (np_unique (samples_structure d))\<rparr>"
    using average_over_structures_by_structure[OF len' wf'] unfolding u by simp
  have s': "sum_over_structures ?d' =
           Inr \<lparr>ncols = ncols (block_values d),
                data = map (\<lambda>s. map (fadd (Finite 0)) (np_sum (structure_selection ?d' s)))
                         (np_unique (samples_structure d))\<rparr>"
    using sum_over_structures_by_structure[OF len' wf'] unfolding u by simp
  have m: "\<forall>s. mset (data (structure_selection ?d' s)) = mset (data (structure_selection d s))"
    using permute_rows_group_mset[OF assms(1,3)] by simp
  have e: "(\<forall>s. structure_selection ?d' s = structure_selection d s) \<longrightarrow>
              average_over_structures ?d' = average_over_structures d
            \<and> sum_over_structures ?d' = sum_over_structures d"
    by (simp add: a s a' s')
  have k: "(\<forall>s. filter (\<lambda>k. samples_structure d ! k = s) p
                  = filter (\<lambda>k. samples_structure d ! k = s)
                      [0..<length (samples_structure d)]) \<longrightarrow>
              average_over_structures ?d' = average_over_structures d
            \<and> sum_over_structures ?d' = sum_over_structures d"
    using e order_keeping_selection[OF assms(1)] by blast
  show ?thesis
    using sorted_np_unique[of "samples_structure d"] set_np_unique[of "samples_structure d"]
      a s a' s' m e k by blast
qed

theorem order_and_permutation_witness:
  "length (samples_structure example_descriptor) = length (data (block_values example_descriptor))
 \<and> wf_ndarray (block_values example_descriptor)
 \<and> mset [1, 0, 2] = mset [0..<length (samples_structure example_descriptor)]
 \<and> permute_rows [1, 0, 2] example_descriptor =
      \<lparr>samples_structure = [- 2, 7, 7],
       block_values = \<lparr>ncols = 2,
         data = [[Finite 3, Finite 3], [Finite 1, Finite 1], [Finite 5, Finite 5]]\<rparr>\<rparr>
 \<and> average_over_structures (permute_rows [1, 0, 2] example_descriptor)
      = average_over_structures example_descriptor
 \<and> sum_over_structures (permute_rows [1, 0, 2] example_descriptor)
      = sum_over_structures example_descriptor"
proof -
  have h1: "length (samples_structure example_descriptor)
              = length (data (block_values example_descriptor))" by simp
  have h2: "wf_ndarray (block_values example_descriptor)" by (simp add: example_values_ok)
  have h4: "mset [1, 0, 2] = mset [0..<length (samples_structure example_descriptor)]"
    by (simp add: upt_rec)
  have p: "permute_rows [1, 0, 2] example_descriptor =
      \<lparr>samples_structure = [- 2, 7, 7],
       block_values = \<lparr>ncols = 2,
         data = [[Finite 3, Finite 3], [Finite 1, Finite 1], [Finite 5, Finite 5]]\<rparr>\<rparr>"
    by (simp add: permute_rows_def)
  have h5: "\<forall>s. structure_selection (permute_rows [1, 0, 2] example_descriptor) s
              = structure_selection example_descriptor s"
    unfolding p by (simp add: structure_selection_def rows_of_structure_def)
  have h6: "\<forall>s. filter (\<lambda>k. samples_structure example_descriptor ! k = s) [1, 0, 2]
              = filter (\<lambda>k. samples_structure example_descriptor ! k = s)
                  [0..<length (samples_structure example_descriptor)]"
    by (simp add: upt_rec)
  from order_and_permutation[OF h1 h2 h4] h5 h6
  have "average_over_structures (permute_rows [1, 0, 2] example_descriptor)
          = average_over_structures example_descriptor
      \<and> sum_over_structures (permute_rows [1, 0, 2] example_descriptor)
          = sum_over_structures example_descriptor"
    by blast
  with h1 h2 h4 p show ?thesis by blast
qed

text \<open>
  The claim as stated fails: three rows of one structure, \<open>[2\<^sup>5\<^sup>3, 0]\<close>, \<open>[1, 0]\<close>,
  \<open>[1, 0]\<close>. In this order the sum of the first column is \<open>2\<^sup>5\<^sup>3\<close> (each \<open>+ 1\<close> is
  rounded away); with the large row last it is \<open>2\<^sup>5\<^sup>3 + 2\<close>. The means differ as well.
\<close>

theorem permutation_changes_output_counterexample:
  "mset [1, 2, 0] = mset [0..<length (samples_structure example_large)]
 \<and> permute_rows [1, 2, 0] example_large =
      \<lparr>samples_structure = [0, 0, 0],
       block_values = \<lparr>ncols = 2,
         data = [[Finite 1, Finite 0], [Finite 1, Finite 0], [Finite (2 ^ 53), Finite 0]]\<rparr>\<rparr>
 \<and> sum_over_structures example_large = Inr \<lparr>ncols = 2, data = [[Finite (2 ^ 53), Finite 0]]\<rparr>
 \<and> sum_over_structures (permute_rows [1, 2, 0] example_large)
      = Inr \<lparr>ncols = 2, data = [[Finite (2 ^ 53 + 2), Finite 0]]\<rparr>
 \<and> sum_over_structures (permute_rows [1, 2, 0] example_large) \<noteq> sum_over_structures example_large
 \<and> average_over_structures (permute_rows [1, 2, 0] example_large)
      \<noteq> average_over_structures example_large"
proof -
  have p: "mset [1, 2, 0] = mset [0..<length (samples_structure example_large)]"
    by (simp add: upt_rec)
  have s: "sum_over_structures (permute_rows [1, 2, 0] example_large)
             \<noteq> sum_over_structures example_large"
    unfolding example_large_runs(2,3) by simp
  have a: "average_over_structures (permute_rows [1, 2, 0] example_large)
             \<noteq> average_over_structures example_large"
    unfolding example_large_runs(4,5) by simp
  show ?thesis using p s a example_large_runs(1,2,3) by blast
qed

text \<open>
  Claim C4, as amended. A table that already has one row per structure index (and holds
  binary64 numbers) comes back from both helpers with the same rows, reordered by
  ascending structure index, but for the sign of zero: every entry \<open>-0.0\<close> comes back
  as \<open>+0.0\<close>, since the row is added to the zeros of \<^verbatim>\<open>np.zeros\<close>. A table without an
  entry \<open>-0.0\<close> comes back with exactly its rows, and as it is when its indices are
  ascending already. An output of a helper, aggregated again over its ascending
  structure indices, comes back as it is.
\<close>

theorem one_row_per_structure_rows_kept:
  assumes "distinct (samples_structure d)"
    and "length (samples_structure d) = length (data (block_values d))"
    and "wf_ndarray (block_values d)" and "float64_ndarray (block_values d)"
  shows "average_over_structures d =
           Inr \<lparr>ncols = ncols (block_values d),
                data = map (map drop_zero_sign)
                  (map snd (sort_key fst (zip (samples_structure d) (data (block_values d)))))\<rparr>
       \<and> sum_over_structures d =
           Inr \<lparr>ncols = ncols (block_values d),
                data = map (map drop_zero_sign)
                  (map snd (sort_key fst (zip (samples_structure d) (data (block_values d)))))\<rparr>
       \<and> ((\<forall>r \<in> set (data (block_values d)). NZero \<notin> set r) \<longrightarrow>
              average_over_structures d =
                Inr \<lparr>ncols = ncols (block_values d),
                     data = map snd (sort_key fst (zip (samples_structure d) (data (block_values d))))\<rparr>
            \<and> sum_over_structures d =
                Inr \<lparr>ncols = ncols (block_values d),
                     data = map snd (sort_key fst (zip (samples_structure d) (data (block_values d))))\<rparr>)
       \<and> ((\<forall>r \<in> set (data (block_values d)). NZero \<notin> set r) \<and> sorted (samples_structure d) \<longrightarrow>
              average_over_structures d = Inr (block_values d)
            \<and> sum_over_structures d = Inr (block_values d))
       \<and> (\<forall>out. average_over_structures d = Inr out \<or> sum_over_structures d = Inr out \<longrightarrow>
              average_over_structures
                \<lparr>samples_structure = np_unique (samples_structure d), block_values = out\<rparr> = Inr out
            \<and> sum_over_structures
                \<lparr>samples_structure = np_unique (samples_structure d), block_values = out\<rparr> = Inr out)"
proof -
  let ?sorted = "map snd (sort_key fst (zip (samples_structure d) (data (block_values d))))"
  have sub: "set ?sorted \<subseteq> set (data (block_values d))"
    by (auto dest: set_zip_rightD)
  have plain: "map (map drop_zero_sign) ?sorted = ?sorted"
    if "\<forall>r \<in> set (data (block_values d)). NZero \<notin> set r"
    using that sub by (intro drop_zero_sign_rows) blast
  have same: "?sorted = data (block_values d)" if "sorted (samples_structure d)"
    using sorted_table_rows[OF that assms(2)] .
  note run = single_row_groups[OF assms]
  have noz: "average_over_structures d = Inr \<lparr>ncols = ncols (block_values d), data = ?sorted\<rparr>
           \<and> sum_over_structures d = Inr \<lparr>ncols = ncols (block_values d), data = ?sorted\<rparr>"
    if "\<forall>r \<in> set (data (block_values d)). NZero \<notin> set r"
    using run plain[OF that] by simp
  have asc: "average_over_structures d = Inr (block_values d)
           \<and> sum_over_structures d = Inr (block_values d)"
    if "\<forall>r \<in> set (data (block_values d)). NZero \<notin> set r" and "sorted (samples_structure d)"
    using noz[OF that(1)] same[OF that(2)] by simp
  have again: "average_over_structures
                \<lparr>samples_structure = np_unique (samples_structure d), block_values = out\<rparr> = Inr out
            \<and> sum_over_structures
                \<lparr>samples_structure = np_unique (samples_structure d), block_values = out\<rparr> = Inr out"
    if "average_over_structures d = Inr out \<or> sum_over_structures d = Inr out" for out
    using aggregation_idempotent[OF assms(2,3) that] by simp
  from run noz asc again show ?thesis by blast
qed

theorem one_row_per_structure_rows_kept_witness:
  "distinct (samples_structure example_negzero)
 \<and> length (samples_structure example_negzero) = length (data (block_values example_negzero))
 \<and> wf_ndarray (block_values example_negzero) \<and> float64_ndarray (block_values example_negzero)
 \<and> average_over_structures example_negzero =
       Inr \<lparr>ncols = 2, data = [[Finite 3, Finite 3], [Finite 0, Finite 1]]\<rparr>
 \<and> sum_over_structures example_negzero =
       Inr \<lparr>ncols = 2, data = [[Finite 3, Finite 3], [Finite 0, Finite 1]]\<rparr>
 \<and> average_over_structures example_table =
       Inr \<lparr>ncols = 2, data = [[Finite 3, Finite 3], [Finite 5, Finite 5], [Finite 1, Finite 1]]\<rparr>
 \<and> sum_over_structures example_table =
       Inr \<lparr>ncols = 2, data = [[Finite 3, Finite 3], [Finite 5, Finite 5], [Finite 1, Finite 1]]\<rparr>
 \<and> average_over_structures
       \<lparr>samples_structure = [- 2, 7],
        block_values = \<lparr>ncols = 2, data = [[Finite 3, Finite 3], [Finite 0, Finite 1]]\<rparr>\<rparr> =
       Inr \<lparr>ncols = 2, data = [[Finite 3, Finite 3], [Finite 0, Finite 1]]\<rparr>
 \<and> sorted (samples_structure \<lparr>samples_structure = [- 2, 3, 7], block_values = example_values\<rparr>)
 \<and> average_over_structures \<lparr>samples_structure = [- 2, 3, 7], block_values = example_values\<rparr>
       = Inr example_values
 \<and> sum_over_structures \<lparr>samples_structure = [- 2, 3, 7], block_values = example_values\<rparr>
       = Inr example_values"
proof -
  have n1: "distinct (samples_structure example_negzero)" by simp
  have n2: "length (samples_structure example_negzero) = length (data (block_values example_negzero))"
    by simp
  have n3: "wf_ndarray (block_values example_negzero)" by (simp add: wf_ndarray_def)
  have n4: "float64_ndarray (block_values example_negzero)"
    by (simp add: float64_ndarray_def is_float64_numeral is_float64_one)
  have h1: "distinct (samples_structure example_table)" by simp
  have h2: "length (samples_structure example_table) = length (data (block_values example_table))"
    by simp
  have h3: "wf_ndarray (block_values example_table)" by (simp add: example_values_ok)
  have h4: "float64_ndarray (block_values example_table)" by (simp add: example_values_ok)
  have h5: "\<forall>r \<in> set (data (block_values example_table)). NZero \<notin> set r" by simp
  let ?t = "\<lparr>samples_structure = [- 2, 3, 7], block_values = example_values\<rparr>"
  have g1: "distinct (samples_structure ?t)" by simp
  have g2: "length (samples_structure ?t) = length (data (block_values ?t))" by simp
  have g3: "wf_ndarray (block_values ?t)" by (simp add: example_values_ok)
  have g4: "float64_ndarray (block_values ?t)" by (simp add: example_values_ok)
  have g5: "sorted (samples_structure ?t)" by simp
  have g6: "\<forall>r \<in> set (data (block_values ?t)). NZero \<notin> set r" by simp
  from one_row_per_structure_rows_kept[OF n1 n2 n3 n4]
  have a: "average_over_structures example_negzero =
       Inr \<lparr>ncols = 2, data = [[Finite 3, Finite 3], [Finite 0, Finite 1]]\<rparr>
     \<and> sum_over_structures example_negzero =
       Inr \<lparr>ncols = 2, data = [[Finite 3, Finite 3], [Finite 0, Finite 1]]\<rparr>"
    by simp
  have nu: "np_unique (samples_structure example_negzero) = [- 2, 7]"
    by (simp add: np_unique_def)
  from one_row_per_structure_rows_kept[OF n1 n2 n3 n4] a
  have i: "average_over_structures
       \<lparr>samples_structure = np_unique (samples_structure example_negzero),
        block_values = \<lparr>ncols = 2, data = [[Finite 3, Finite 3], [Finite 0, Finite 1]]\<rparr>\<rparr> =
       Inr \<lparr>ncols = 2, data = [[Finite 3, Finite 3], [Finite 0, Finite 1]]\<rparr>"
    by blast
  from one_row_per_structure_rows_kept[OF h1 h2 h3 h4] h5
  have b: "average_over_structures example_table =
       Inr \<lparr>ncols = 2, data = [[Finite 3, Finite 3], [Finite 5, Finite 5], [Finite 1, Finite 1]]\<rparr>
     \<and> sum_over_structures example_table =
       Inr \<lparr>ncols = 2, data = [[Finite 3, Finite 3], [Finite 5, Finite 5], [Finite 1, Finite 1]]\<rparr>"
    by simp
  from one_row_per_structure_rows_kept[OF g1 g2 g3 g4] g5 g6
  have c: "average_over_structures ?t = Inr example_values
         \<and> sum_over_structures ?t = Inr example_values"
    by simp
  from a b c i[unfolded nu] n1 n2 n3 n4 g5 show ?thesis by blast
qed

text \<open>
  The claim as stated fails on the sign of zero: the table with the rows \<open>[-0.0, 1]\<close>
  (index \<open>7\<close>) and \<open>[3, 3]\<close> (index \<open>-2\<close>) has one row per index, and both helpers
  return \<open>[0.0, 1]\<close> for the index \<open>7\<close>, which is not the row of the table.
\<close>

theorem negative_zero_counterexample:
  "distinct (samples_structure example_negzero)
 \<and> length (samples_structure example_negzero) = length (data (block_values example_negzero))
 \<and> average_over_structures example_negzero =
       Inr \<lparr>ncols = 2, data = [[Finite 3, Finite 3], [Finite 0, Finite 1]]\<rparr>
 \<and> sum_over_structures example_negzero =
       Inr \<lparr>ncols = 2, data = [[Finite 3, Finite 3], [Finite 0, Finite 1]]\<rparr>
 \<and> map snd (sort_key fst (zip (samples_structure example_negzero)
                                  (data (block_values example_negzero))))
       = [[Finite 3, Finite 3], [NZero, Finite 1]]
 \<and> [[Finite 3, Finite 3], [Finite 0, Finite 1]] \<noteq> [[Finite 3, Finite 3], [NZero, Finite 1]]"
  by (simp add: example_negzero_runs)

text \<open>
  Claim C5, as amended. When the samples are not empty and their number differs from the
  number of rows of the values, both helpers raise the IndexError of the boolean
  indexing \<^verbatim>\<open>values[mask, :]\<close>, which carries both lengths. (With no samples the loop
  body never runs and nothing is raised: the counterexample below.)
\<close>

theorem mismatch_raises:
  assumes "length (samples_structure d) \<noteq> length (data (block_values d))"
    and "samples_structure d \<noteq> []"
  shows "average_over_structures d =
           Inl (IndexError (length (data (block_values d))) (length (samples_structure d)))
       \<and> sum_over_structures d =
           Inl (IndexError (length (data (block_values d))) (length (samples_structure d)))"
proof -
  have "set (np_unique (samples_structure d)) \<noteq> {}" using assms(2) by (simp add: set_np_unique)
  then have "np_unique (samples_structure d) \<noteq> []" by auto
  then obtain u us where "np_unique (samples_structure d) = u # us"
    by (cases "np_unique (samples_structure d)") auto
  then show ?thesis
    by (simp add: average_over_structures_def sum_over_structures_def Let_def
        bool_index_eq_mask_mismatch[OF assms(1)])
qed

theorem mismatch_raises_witness:
  "length (samples_structure \<lparr>samples_structure = [7, - 2], block_values = example_values\<rparr>)
     \<noteq> length (data (block_values \<lparr>samples_structure = [7, - 2], block_values = example_values\<rparr>))
 \<and> samples_structure \<lparr>samples_structure = [7, - 2], block_values = example_values\<rparr> \<noteq> []
 \<and> average_over_structures \<lparr>samples_structure = [7, - 2], block_values = example_values\<rparr>
     = Inl (IndexError 3 2)
 \<and> sum_over_structures \<lparr>samples_structure = [7, - 2], block_values = example_values\<rparr>
     = Inl (IndexError 3 2)"
proof -
  have h1: "length (samples_structure \<lparr>samples_structure = [7, - 2], block_values = example_values\<rparr>)
     \<noteq> length (data (block_values \<lparr>samples_structure = [7, - 2], block_values = example_values\<rparr>))"
    by simp
  have h2: "samples_structure \<lparr>samples_structure = [7, - 2], block_values = example_values\<rparr> \<noteq> []"
    by simp
  from mismatch_raises[OF h1 h2] show ?thesis using h1 h2 by simp
qed

text \<open>
  The claim as stated fails for an empty index mapping: with no samples and one row of
  values the row counts differ, and both helpers return an empty array.
\<close>

theorem mismatch_empty_mapping_counterexample:
  "length (samples_structure
      \<lparr>samples_structure = [], block_values = \<lparr>ncols = 2, data = [[Finite 1, Finite 1]]\<rparr>\<rparr>)
     \<noteq> length (data (block_values
      \<lparr>samples_structure = [], block_values = \<lparr>ncols = 2, data = [[Finite 1, Finite 1]]\<rparr>\<rparr>))
 \<and> average_over_structures
      \<lparr>samples_structure = [], block_values = \<lparr>ncols = 2, data = [[Finite 1, Finite 1]]\<rparr>\<rparr>
     = Inr \<lparr>ncols = 2, data = []\<rparr>
 \<and> sum_over_structures
      \<lparr>samples_structure = [], block_values = \<lparr>ncols = 2, data = [[Finite 1, Finite 1]]\<rparr>\<rparr>
     = Inr \<lparr>ncols = 2, data = []\<rparr>"
  by (simp add: average_over_structures_def sum_over_structures_def np_unique_def np_zeros_def)

text \<open>
  Claim C6, as amended. For samples and values of the same number of rows, both helpers
  return arrays of the same shape whose row \<open>i\<close> belongs to the \<open>i\<close>-th smallest distinct
  structure index; the row of the sum helper is \<^verbatim>\<open>np.sum\<close> of the rows of that structure,
  and the row of the mean helper is that row divided, entry by entry in binary64, by the
  number of rows of the structure. In both, a zero is written \<open>+0.0\<close>, since the row is
  added to the zeros of \<^verbatim>\<open>np.zeros\<close>. (Multiplying the mean back by the count need not
  give the sum: the division rounds; see the counterexample below.)
\<close>

theorem mean_is_sum_divided_by_count:
  assumes "length (samples_structure d) = length (data (block_values d))"
    and "wf_ndarray (block_values d)"
  shows "\<exists>om os. average_over_structures d = Inr om \<and> sum_over_structures d = Inr os
           \<and> ncols om = ncols os
           \<and> length (data om) = length (np_unique (samples_structure d))
           \<and> length (data os) = length (np_unique (samples_structure d))
           \<and> (\<forall>i < length (np_unique (samples_structure d)).
                 data os ! i =
                   map drop_zero_sign
                     (np_sum (structure_selection d (np_unique (samples_structure d) ! i)))
               \<and> data om ! i =
                   map (\<lambda>x. drop_zero_sign
                               (fdiv x (of_count (count_list (samples_structure d)
                                                    (np_unique (samples_structure d) ! i)))))
                     (data os ! i))"
  unfolding average_over_structures_by_structure[OF assms]
    sum_over_structures_by_structure[OF assms]
  by (simp add: written_sum_row written_mean_row length_structure_selection[OF assms(1)]
      del: map_map)

theorem mean_is_sum_divided_by_count_witness:
  "length (samples_structure example_descriptor) = length (data (block_values example_descriptor))
 \<and> wf_ndarray (block_values example_descriptor)
 \<and> np_unique (samples_structure example_descriptor) = [- 2, 7]
 \<and> count_list (samples_structure example_descriptor) 7 = 2
 \<and> (\<exists>om os. average_over_structures example_descriptor = Inr om
        \<and> sum_over_structures example_descriptor = Inr os
        \<and> data os ! 1 = [Finite 6, Finite 6]
        \<and> data om ! 1 = map (\<lambda>x. drop_zero_sign (fdiv x (of_count 2))) (data os ! 1)
        \<and> data om ! 1 = [Finite 3, Finite 3])"
proof -
  have h1: "length (samples_structure example_descriptor)
              = length (data (block_values example_descriptor))" by simp
  have h2: "wf_ndarray (block_values example_descriptor)" by (simp add: example_values_ok)
  have u: "np_unique (samples_structure example_descriptor) = [- 2, 7]"
    by (simp add: np_unique_def)
  have c: "count_list (samples_structure example_descriptor) 7 = 2" by simp
  from mean_is_sum_divided_by_count[OF h1 h2]
  obtain om os where r: "average_over_structures example_descriptor = Inr om"
      "sum_over_structures example_descriptor = Inr os"
    and e: "\<forall>i < length (np_unique (samples_structure example_descriptor)).
                 data os ! i =
                   map drop_zero_sign
                     (np_sum (structure_selection example_descriptor
                                (np_unique (samples_structure example_descriptor) ! i)))
               \<and> data om ! i =
                   map (\<lambda>x. drop_zero_sign
                               (fdiv x (of_count (count_list (samples_structure example_descriptor)
                                         (np_unique (samples_structure example_descriptor) ! i)))))
                     (data os ! i)"
    by blast
  from e[rule_format, of 1]
  have m: "data om ! 1 = map (\<lambda>x. drop_zero_sign (fdiv x (of_count 2))) (data os ! 1)"
    unfolding u by (simp add: numeral_2_eq_2)
  from r example_descriptor_runs have s: "data os ! 1 = [Finite 6, Finite 6]"
    and a: "data om ! 1 = [Finite 3, Finite 3]"
    by auto
  from r h1 h2 u c m s a show ?thesis by blast
qed

text \<open>
  The claim as stated fails: seven rows of one structure with the entries
  \<open>5, 4, 4, 4, 4, 4, 4\<close>. The sum is \<open>29\<close>; the mean is \<open>29 / 7\<close> rounded to binary64;
  that mean times \<open>7\<close>, rounded, is \<open>29 + 2\<^sup>-\<^sup>4\<^sup>8\<close>, not \<open>29\<close>.
\<close>

theorem mean_times_count_counterexample:
  "sum_over_structures example_seven = Inr \<lparr>ncols = 1, data = [[Finite 29]]\<rparr>
 \<and> average_over_structures example_seven =
      Inr \<lparr>ncols = 1, data = [[Finite (4664442471205157 / 2 ^ 50)]]\<rparr>
 \<and> fmul (Finite (4664442471205157 / 2 ^ 50)) (of_count 7) = Finite (29 + 1 / 2 ^ 48)
 \<and> fmul (Finite (4664442471205157 / 2 ^ 50)) (of_count 7) \<noteq> Finite 29"
proof -
  have "fmul (Finite (4664442471205157 / 2 ^ 50)) (of_count 7) \<noteq> Finite 29"
    unfolding example_seven_runs(3) by simp
  then show ?thesis using example_seven_runs by blast
qed

text \<open>
  Claim C7. On the store: called with references to the samples and to the values, each
  helper leaves every array of the store as it was, the samples and the values among
  them; the store afterwards is the store before with one array appended. On success
  the helper returns the reference of that new array, which holds the result computed by
  the helper on the contents of the two inputs; when the selection raises, the same
  error is returned.
\<close>

theorem inputs_unchanged:
  assumes "ps < length (int_arrays h)" and "pv < length (float_arrays h)"
  shows "(\<exists>a. average_over_structures_store ps pv h =
            (map_sum id (\<lambda>_. length (float_arrays h))
               (average_over_structures
                  \<lparr>samples_structure = int_arrays h ! ps, block_values = float_arrays h ! pv\<rparr>),
             h\<lparr>float_arrays := float_arrays h @ [a]\<rparr>)
          \<and> (\<forall>out. average_over_structures
                  \<lparr>samples_structure = int_arrays h ! ps, block_values = float_arrays h ! pv\<rparr>
                = Inr out \<longrightarrow> a = out))
       \<and> (\<exists>a. sum_over_structures_store ps pv h =
            (map_sum id (\<lambda>_. length (float_arrays h))
               (sum_over_structures
                  \<lparr>samples_structure = int_arrays h ! ps, block_values = float_arrays h ! pv\<rparr>),
             h\<lparr>float_arrays := float_arrays h @ [a]\<rparr>)
          \<and> (\<forall>out. sum_over_structures
                  \<lparr>samples_structure = int_arrays h ! ps, block_values = float_arrays h ! pv\<rparr>
                = Inr out \<longrightarrow> a = out))"
  using over_structures_store_sim[OF assms(2), of np_mean ps]
    over_structures_store_sim[OF assms(2), of np_sum ps]
  by (simp add: average_over_structures_store_def sum_over_structures_store_def
      average_over_structures_def sum_over_structures_def Let_def)

theorem inputs_unchanged_witness:
  "0 < length (int_arrays \<lparr>int_arrays = [[7, - 2, 7]], float_arrays = [example_values]\<rparr>)
 \<and> 0 < length (float_arrays \<lparr>int_arrays = [[7, - 2, 7]], float_arrays = [example_values]\<rparr>)
 \<and> average_over_structures_store 0 0 \<lparr>int_arrays = [[7, - 2, 7]], float_arrays = [example_values]\<rparr>
     = (Inr 1, \<lparr>int_arrays = [[7, - 2, 7]],
                float_arrays = [example_values,
                  \<lparr>ncols = 2, data = [[Finite 3, Finite 3], [Finite 3, Finite 3]]\<rparr>]\<rparr>)
 \<and> sum_over_structures_store 0 0 \<lparr>int_arrays = [[7, - 2, 7]], float_arrays = [example_values]\<rparr>
     = (Inr 1, \<lparr>int_arrays = [[7, - 2, 7]],
                float_arrays = [example_values,
                  \<lparr>ncols = 2, data = [[Finite 3, Finite 3], [Finite 6, Finite 6]]\<rparr>]\<rparr>)"
proof -
  let ?h = "\<lparr>int_arrays = [[7, - 2, 7]], float_arrays = [example_values]\<rparr>"
  have h1: "0 < length (int_arrays ?h)" by simp
  have h2: "0 < length (float_arrays ?h)" by simp
  have d: "\<lparr>samples_structure = int_arrays ?h ! 0, block_values = float_arrays ?h ! 0\<rparr>
             = example_descriptor"
    by simp
  from inputs_unchanged[OF h1 h2] show ?thesis
    unfolding d example_descriptor_runs using h1 h2 by simp
qed



text \<open>
  Claim C9. Nothing is asked of the structure indices: for any integers, in any order and
  with any repetitions, and values with as many rows, both helpers return one row per
  distinct index, the rows in ascending order of the indices. The row of an index is
  \<^verbatim>\<open>np.mean\<close> (\<^verbatim>\<open>np.sum\<close>) of exactly the input rows that carry this index, kept in the
  order of the input; entry \<open>j\<close> of it is the mean (the sum) of column \<open>j\<close> over these
  rows, summed as \<^verbatim>\<open>np.sum\<close> does (row after row for several columns, pairwise for a
  single column), a zero being written \<open>+0.0\<close>.
\<close>

theorem aggregates_per_group:
  assumes "length (samples_structure d) = length (data (block_values d))"
    and "wf_ndarray (block_values d)"
  shows "sorted_wrt (<) (np_unique (samples_structure d))
       \<and> set (np_unique (samples_structure d)) = set (samples_structure d)
       \<and> (\<exists>om os. average_over_structures d = Inr om \<and> sum_over_structures d = Inr os
            \<and> length (data om) = length (np_unique (samples_structure d))
            \<and> length (data os) = length (np_unique (samples_structure d))
            \<and> (\<forall>i < length (np_unique (samples_structure d)).
                  data om ! i =
                    map drop_zero_sign
                      (np_mean (structure_selection d (np_unique (samples_structure d) ! i)))
                \<and> data os ! i =
                    map drop_zero_sign
                      (np_sum (structure_selection d (np_unique (samples_structure d) ! i)))
                \<and> length (data om ! i) = ncols (block_values d)
                \<and> length (data os ! i) = ncols (block_values d)
                \<and> (\<forall>j < ncols (block_values d).
                      data om ! i ! j =
                        drop_zero_sign
                          (spec_column_mean (ncols (block_values d))
                             (rows_of_structure (samples_structure d) (data (block_values d))
                                (np_unique (samples_structure d) ! i)) j)
                    \<and> data os ! i ! j =
                        drop_zero_sign
                          (spec_column_sum (ncols (block_values d))
                             (rows_of_structure (samples_structure d) (data (block_values d))
                                (np_unique (samples_structure d) ! i)) j))))"
proof -
  have wf: "wf_ndarray (structure_selection d s)" for s
    by (rule wf_structure_selection[OF assms(2)])
  have entries:
    "np_mean (structure_selection d s) ! j =
       spec_column_mean (ncols (block_values d))
         (rows_of_structure (samples_structure d) (data (block_values d)) s) j"
    "np_sum (structure_selection d s) ! j =
       spec_column_sum (ncols (block_values d))
         (rows_of_structure (samples_structure d) (data (block_values d)) s) j"
    if "j < ncols (block_values d)" for s j
    using nth_np_mean[OF wf, of j s] nth_np_sum[OF wf, of j s] that
    by (simp_all add: structure_selection_def)
  have lens: "length (np_mean (structure_selection d s)) = ncols (block_values d)"
    "length (np_sum (structure_selection d s)) = ncols (block_values d)" for s
    using length_np_mean[OF wf, of s] length_np_sum[OF wf, of s] by simp_all
  show ?thesis
    unfolding average_over_structures_by_structure[OF assms]
      sum_over_structures_by_structure[OF assms]
    by (simp add: sorted_np_unique set_np_unique written_sum_row written_mean_row_plain
        lens entries)
qed

theorem aggregates_per_group_witness:
  "length (samples_structure example_descriptor) = length (data (block_values example_descriptor))
 \<and> wf_ndarray (block_values example_descriptor)
 \<and> np_unique (samples_structure example_descriptor) = [- 2, 7]
 \<and> rows_of_structure (samples_structure example_descriptor)
       (data (block_values example_descriptor)) 7 = [[Finite 1, Finite 1], [Finite 5, Finite 5]]
 \<and> (\<exists>om os. average_over_structures example_descriptor = Inr om
        \<and> sum_over_structures example_descriptor = Inr os
        \<and> data om ! 1 ! 0 =
             drop_zero_sign (spec_column_mean 2 [[Finite 1, Finite 1], [Finite 5, Finite 5]] 0)
        \<and> data os ! 1 ! 0 =
             drop_zero_sign (spec_column_sum 2 [[Finite 1, Finite 1], [Finite 5, Finite 5]] 0)
        \<and> data om ! 1 ! 0 = Finite 3 \<and> data os ! 1 ! 0 = Finite 6)
 \<and> length (samples_structure example_column) = length (data (block_values example_column))
 \<and> wf_ndarray (block_values example_column)
 \<and> np_unique (samples_structure example_column) = [0]
 \<and> (\<exists>om os. average_over_structures example_column = Inr om
        \<and> sum_over_structures example_column = Inr os
        \<and> data os ! 0 ! 0 =
             drop_zero_sign (spec_column_sum 1 (data (block_values example_column)) 0)
        \<and> data om ! 0 ! 0 =
             drop_zero_sign (spec_column_mean 1 (data (block_values example_column)) 0)
        \<and> data os ! 0 ! 0 = Finite (2 ^ 53 + 6)
        \<and> data om ! 0 ! 0 = Finite ((2 ^ 53 + 6) / 8))"
proof -
  have h1: "length (samples_structure example_descriptor)
              = length (data (block_values example_descriptor))" by simp
  have h2: "wf_ndarray (block_values example_descriptor)" by (simp add: example_values_ok)
  have u: "np_unique (samples_structure example_descriptor) = [- 2, 7]"
    by (simp add: np_unique_def)
  have g: "rows_of_structure (samples_structure example_descriptor)
       (data (block_values example_descriptor)) 7 = [[Finite 1, Finite 1], [Finite 5, Finite 5]]"
    by (simp add: rows_of_structure_def)
  have g': "rows_of_structure [7, - 2, 7] (data example_values) 7
      = [[Finite 1, Finite 1], [Finite 5, Finite 5]]"
    by (simp add: rows_of_structure_def)
  from aggregates_per_group[OF h1 h2]
  obtain om os where r: "average_over_structures example_descriptor = Inr om"
      "sum_over_structures example_descriptor = Inr os"
    and e: "\<forall>i < length (np_unique (samples_structure example_descriptor)).
              (\<forall>j < ncols (block_values example_descriptor).
                  data om ! i ! j =
                    drop_zero_sign
                      (spec_column_mean (ncols (block_values example_descriptor))
                         (rows_of_structure (samples_structure example_descriptor)
                            (data (block_values example_descriptor))
                            (np_unique (samples_structure example_descriptor) ! i)) j)
                \<and> data os ! i ! j =
                    drop_zero_sign
                      (spec_column_sum (ncols (block_values example_descriptor))
                         (rows_of_structure (samples_structure example_descriptor)
                            (data (block_values example_descriptor))
                            (np_unique (samples_structure example_descriptor) ! i)) j))"
    by blast
  from e[rule_format, of 1] have "\<forall>j < ncols (block_values example_descriptor).
        data om ! 1 ! j =
          drop_zero_sign (spec_column_mean 2 [[Finite 1, Finite 1], [Finite 5, Finite 5]] j)
      \<and> data os ! 1 ! j =
          drop_zero_sign (spec_column_sum 2 [[Finite 1, Finite 1], [Finite 5, Finite 5]] j)"
    unfolding u using g' by simp
  then have a: "data om ! 1 ! 0 =
          drop_zero_sign (spec_column_mean 2 [[Finite 1, Finite 1], [Finite 5, Finite 5]] 0)
      \<and> data os ! 1 ! 0 =
          drop_zero_sign (spec_column_sum 2 [[Finite 1, Finite 1], [Finite 5, Finite 5]] 0)"
    by simp
  from r example_descriptor_runs have b: "data om ! 1 ! 0 = Finite 3 \<and> data os ! 1 ! 0 = Finite 6"
    by auto
  have k1: "length (samples_structure example_column) = length (data (block_values example_column))"
    by simp
  have k2: "wf_ndarray (block_values example_column)" by (simp add: wf_ndarray_def)
  have ku: "np_unique (samples_structure example_column) = [0]" by (simp add: np_unique_def)
  have kg: "rows_of_structure [0, 0, 0, 0, 0, 0, 0, 0] (data (block_values example_column)) 0
      = data (block_values example_column)"
    by (simp add: rows_of_structure_def)
  from aggregates_per_group[OF k1 k2]
  obtain cm cs where kr: "average_over_structures example_column = Inr cm"
      "sum_over_structures example_column = Inr cs"
    and ke: "\<forall>i < length (np_unique (samples_structure example_column)).
              (\<forall>j < ncols (block_values example_column).
                  data cm ! i ! j =
                    drop_zero_sign
                      (spec_column_mean (ncols (block_values example_column))
                         (rows_of_structure (samples_structure example_column)
                            (data (block_values example_column))
                            (np_unique (samples_structure example_column) ! i)) j)
                \<and> data cs ! i ! j =
                    drop_zero_sign
                      (spec_column_sum (ncols (block_values example_column))
                         (rows_of_structure (samples_structure example_column)
                            (data (block_values example_column))
                            (np_unique (samples_structure example_column) ! i)) j))"
    by blast
  from ke[rule_format, of 0] have "\<forall>j < ncols (block_values example_column).
        data cm ! 0 ! j =
          drop_zero_sign (spec_column_mean 1 (data (block_values example_column)) j)
      \<and> data cs ! 0 ! j =
          drop_zero_sign (spec_column_sum 1 (data (block_values example_column)) j)"
    unfolding ku using kg by simp
  then have ka: "data cs ! 0 ! 0 =
          drop_zero_sign (spec_column_sum 1 (data (block_values example_column)) 0)
      \<and> data cm ! 0 ! 0 =
          drop_zero_sign (spec_column_mean 1 (data (block_values example_column)) 0)"
    by simp
  from kr example_column_runs(1,2)
  have kb: "data cs ! 0 ! 0 = Finite (2 ^ 53 + 6) \<and> data cm ! 0 ! 0 = Finite ((2 ^ 53 + 6) / 8)"
    by auto
  have first: "\<exists>om os. average_over_structures example_descriptor = Inr om
        \<and> sum_over_structures example_descriptor = Inr os
        \<and> data om ! 1 ! 0 =
             drop_zero_sign (spec_column_mean 2 [[Finite 1, Finite 1], [Finite 5, Finite 5]] 0)
        \<and> data os ! 1 ! 0 =
             drop_zero_sign (spec_column_sum 2 [[Finite 1, Finite 1], [Finite 5, Finite 5]] 0)
        \<and> data om ! 1 ! 0 = Finite 3 \<and> data os ! 1 ! 0 = Finite 6"
    using r a b by blast
  have second: "\<exists>om os. average_over_structures example_column = Inr om
        \<and> sum_over_structures example_column = Inr os
        \<and> data os ! 0 ! 0 =
             drop_zero_sign (spec_column_sum 1 (data (block_values example_column)) 0)
        \<and> data om ! 0 ! 0 =
             drop_zero_sign (spec_column_mean 1 (data (block_values example_column)) 0)
        \<and> data os ! 0 ! 0 = Finite (2 ^ 53 + 6)
        \<and> data om ! 0 ! 0 = Finite ((2 ^ 53 + 6) / 8)"
    using kr ka kb by blast
  from h1 h2 u g first k1 k2 ku second show ?thesis by blast
qed

text \<open>
  Claim C10. With no sample and a values array of no rows and \<open>c\<close> columns, both
  helpers return an array of no rows and \<open>c\<close> columns; no exception is raised.
\<close>

theorem empty_input:
  "average_over_structures \<lparr>samples_structure = [], block_values = \<lparr>ncols = c, data = []\<rparr>\<rparr>
     = Inr \<lparr>ncols = c, data = []\<rparr>
 \<and> sum_over_structures \<lparr>samples_structure = [], block_values = \<lparr>ncols = c, data = []\<rparr>\<rparr>
     = Inr \<lparr>ncols = c, data = []\<rparr>"
  by (simp add: average_over_structures_def sum_over_structures_def np_unique_def np_zeros_def)

end
